theory Spec2Isabelle
  imports Complex_Main
begin

section \<open>JavaScript values read by the WebSocket manager\<close>

text \<open>
  The manager (\<^verbatim>\<open>websocketManager.jsx\<close>) hands the result of \<^verbatim>\<open>JSON.parse(event.data)\<close>
  to \<^verbatim>\<open>handleStreamingMessage\<close>, which inspects it with property reads, strict
  equality against string literals and truthiness tests. \<open>jsval\<close> is the value
  domain of those operations: the JSON values and \<^verbatim>\<open>undefined\<close> (what reading a
  missing property gives). An object is the list of its own properties; a parsed
  object has every key once, and a read finds the first binding of the key.
  A number carries its value as a rational (every double is one) and the text the
  engine prints for it (\<^verbatim>\<open>Number.prototype.toString\<close>), which string concatenation uses.
\<close>

datatype jsval =
    JUndefined
  | JNull
  | JBool bool
  | JNum rat string
  | JStr string
  | JArr "jsval list"
  | JObj "(string \<times> jsval) list"

datatype js_error =
    TypeError
  | NotConnected
  | TransportError
  | SendError

text \<open>
  \<^verbatim>\<open>v.k\<close>: reading a property of \<^verbatim>\<open>undefined\<close> or \<^verbatim>\<open>null\<close> throws a TypeError.
  The names the manager reads this way are \<^verbatim>\<open>type\<close>, \<^verbatim>\<open>data\<close>, \<^verbatim>\<open>delta\<close>,
  \<^verbatim>\<open>text\<close> and \<^verbatim>\<open>message\<close>; booleans, numbers, strings and arrays have no
  property of these names, so the read gives \<^verbatim>\<open>undefined\<close>.
\<close>

fun get :: "jsval \<Rightarrow> string \<Rightarrow> js_error + jsval" where
  "get JUndefined k = Inl TypeError"
| "get JNull k = Inl TypeError"
| "get (JObj kvs) k = Inr (case map_of kvs k of None \<Rightarrow> JUndefined | Some v \<Rightarrow> v)"
| "get v k = Inr JUndefined"

text \<open>A further read on the result of a read that may have thrown.\<close>

definition get_of :: "js_error + jsval \<Rightarrow> string \<Rightarrow> js_error + jsval" where
  "get_of r k = (case r of Inl e \<Rightarrow> Inl e | Inr v \<Rightarrow> get v k)"

text \<open>
  Truthiness, as \<^verbatim>\<open>if (v)\<close>, \<^verbatim>\<open>v && ...\<close> and \<^verbatim>\<open>v || ...\<close> test it: \<^verbatim>\<open>undefined\<close>,
  \<^verbatim>\<open>null\<close>, \<^verbatim>\<open>false\<close>, zero and the empty string are falsy, everything else
  (every array and object too) is truthy.
\<close>

fun truthy :: "jsval \<Rightarrow> bool" where
  "truthy JUndefined = False"
| "truthy JNull = False"
| "truthy (JBool b) = b"
| "truthy (JNum q t) = (q \<noteq> 0)"
| "truthy (JStr s) = (s \<noteq> [])"
| "truthy (JArr xs) = True"
| "truthy (JObj kvs) = True"

section \<open>Outcomes and coercions\<close>

text \<open>
  What evaluating a piece of the handler does: it returns a value, or it throws, or the
  language leaves the answer to the engine (\<open>NotModelled\<close>). The last happens in one
  place only: the comparison \<^verbatim>\<open>deltaText.length > 0\<close> when \<^verbatim>\<open>deltaText\<close> is an object
  whose own \<^verbatim>\<open>length\<close> is the text of a decimal literal of more than 20 significant
  digits that lies so close to the smallest positive number that the two roundings
  ECMAScript permits there disagree on \<^verbatim>\<open>> 0\<close>.
\<close>

datatype 'a outcome =
    Normal 'a
  | Throw js_error
  | NotModelled

text \<open>
  The string a value is converted to when it is concatenated to a string
  (\<^verbatim>\<open>this.currentMessage += deltaText\<close>) or joined into an array's text. An array is
  the texts of its elements separated by commas, \<^verbatim>\<open>undefined\<close> and \<^verbatim>\<open>null\<close> elements
  giving the empty text. A parsed object gives \<^verbatim>\<open>[object Object]\<close>, unless it has an own
  property \<^verbatim>\<open>toString\<close>: that property is not a function (it was parsed from JSON), the
  inherited \<^verbatim>\<open>valueOf\<close> returns the object itself, and the conversion throws a
  TypeError.
\<close>

fun to_string :: "jsval \<Rightarrow> js_error + string"
  and join :: "jsval list \<Rightarrow> js_error + string" where
  "to_string JUndefined = Inr ''undefined''"
| "to_string JNull = Inr ''null''"
| "to_string (JBool b) = Inr (if b then ''true'' else ''false'')"
| "to_string (JNum q t) = Inr t"
| "to_string (JStr s) = Inr s"
| "to_string (JArr xs) = join xs"
| "to_string (JObj kvs) =
     (if map_of kvs ''toString'' = None then Inr ''[object Object]'' else Inl TypeError)"
| "join [] = Inr []"
| "join (x # xs) =
     (case (if x = JUndefined \<or> x = JNull then Inr [] else to_string x) of
        Inl e \<Rightarrow> Inl e
      | Inr s \<Rightarrow>
          if xs = [] then Inr s
          else (case join xs of Inl e \<Rightarrow> Inl e | Inr r \<Rightarrow> Inr (s @ '','' @ r)))"

text \<open>
  The conversion of a string to a number (ECMAScript's StringToNumber), as far as
  \<^verbatim>\<open>> 0\<close> needs it. Characters are code units below 256; the white space among them
  is tab, line feed, vertical tab, form feed, carriage return, space and no-break space.
\<close>

definition white_space :: "char \<Rightarrow> bool" where
  "white_space c =
     (c \<in> set [CHR 0x09, CHR 0x0A, CHR 0x0B, CHR 0x0C, CHR 0x0D, CHR 0x20, CHR 0xA0])"

definition trim :: "string \<Rightarrow> string" where
  "trim s = rev (dropWhile white_space (rev (dropWhile white_space s)))"

definition is_digit :: "char \<Rightarrow> bool" where
  "is_digit c = (c \<in> set ''0123456789'')"

definition decimal_value :: "string \<Rightarrow> nat" where
  "decimal_value ds = foldl (\<lambda>n c. 10 * n + (of_char c - 48)) 0 ds"

text \<open>
  The exponent of a decimal literal: digits with an optional sign; \<open>None\<close> when the text
  is not of that form.
\<close>

definition signed_integer :: "string \<Rightarrow> int option" where
  "signed_integer s =
     (let neg = (s \<noteq> [] \<and> hd s = CHR ''-'');
          ds = (if s \<noteq> [] \<and> (hd s = CHR ''+'' \<or> hd s = CHR ''-'') then tl s else s)
      in if ds \<noteq> [] \<and> list_all is_digit ds
         then Some (if neg then - int (decimal_value ds) else int (decimal_value ds))
         else None)"

text \<open>
  Whether \<open>n * 10\<^sup>e\<close> rounds to a positive double: it is not zero and it exceeds
  \<open>2\<^sup>-\<^sup>1\<^sup>0\<^sup>7\<^sup>5\<close>, half the smallest positive double (the tie itself rounds to zero).
\<close>

definition rounds_positive :: "nat \<Rightarrow> int \<Rightarrow> bool" where
  "rounds_positive n e = (n \<noteq> 0 \<and> (0 \<le> e \<or> 10 ^ nat (- e) < n * 2 ^ 1075))"

text \<open>
  The digits \<open>ds\<close> of a decimal literal, scaled by \<open>10\<^sup>e\<close>. With at most 20 significant
  digits the value is rounded exactly. With more, the engine may round the value with
  the digits after the 20th replaced by zeros, or that value incremented at the 20th
  digit; there is an answer when both roundings agree.
\<close>

definition decimal_positive :: "string \<Rightarrow> int \<Rightarrow> bool option" where
  "decimal_positive ds e =
     (let sig = dropWhile (\<lambda>c. c = CHR ''0'') ds;
          tz = length (takeWhile (\<lambda>c. c = CHR ''0'') (rev sig));
          body = take (length sig - tz) sig;
          e1 = e + int tz
      in if length body \<le> 20 then Some (rounds_positive (decimal_value body) e1)
         else
           let lo = decimal_value (take 20 body);
               e2 = e1 + int (length body - 20);
               p1 = rounds_positive lo e2;
               p2 = rounds_positive (Suc lo) e2
           in if p1 = p2 then Some p1 else None)"

text \<open>
  An unsigned decimal literal: \<^verbatim>\<open>Infinity\<close>, or digits with an optional fraction and an
  optional exponent, at least one digit before or after the point. Any other text is
  NaN, which is not greater than zero.
\<close>

definition unsigned_positive :: "string \<Rightarrow> bool option" where
  "unsigned_positive u =
     (if u = ''Infinity'' then Some True
      else
        let ip = takeWhile is_digit u;
            r1 = dropWhile is_digit u;
            point = (r1 \<noteq> [] \<and> hd r1 = CHR ''.'');
            fp = (if point then takeWhile is_digit (tl r1) else []);
            r2 = (if point then dropWhile is_digit (tl r1) else r1)
        in if ip = [] \<and> fp = [] then Some False
           else
             (case (if r2 = [] then Some 0
                    else if hd r2 = CHR ''e'' \<or> hd r2 = CHR ''E'' then signed_integer (tl r2)
                    else None) of
                None \<Rightarrow> Some False
              | Some e \<Rightarrow> decimal_positive (ip @ fp) (e - int (length fp))))"

text \<open>
  A literal in radix 16, 8 or 2 (after its prefix): positive when it has a digit other
  than zero.
\<close>

definition radix_positive :: "string \<Rightarrow> string \<Rightarrow> bool" where
  "radix_positive digits ds =
     (ds \<noteq> [] \<and> list_all (\<lambda>c. c \<in> set digits) ds \<and> list_ex (\<lambda>c. c \<noteq> CHR ''0'') ds)"

definition string_positive :: "string \<Rightarrow> bool option" where
  "string_positive s =
     (case trim s of
        [] \<Rightarrow> Some False
      | c # r \<Rightarrow>
          if c = CHR ''-'' then Some False
          else if c = CHR ''+'' then unsigned_positive r
          else if c = CHR ''0'' \<and> r \<noteq> [] \<and> (hd r = CHR ''x'' \<or> hd r = CHR ''X'')
            then Some (radix_positive ''0123456789abcdefABCDEF'' (tl r))
          else if c = CHR ''0'' \<and> r \<noteq> [] \<and> (hd r = CHR ''o'' \<or> hd r = CHR ''O'')
            then Some (radix_positive ''01234567'' (tl r))
          else if c = CHR ''0'' \<and> r \<noteq> [] \<and> (hd r = CHR ''b'' \<or> hd r = CHR ''B'')
            then Some (radix_positive ''01'' (tl r))
          else unsigned_positive (c # r))"

text \<open>
  \<^verbatim>\<open>v > 0\<close>, for the value \<open>v\<close> read from an object's \<^verbatim>\<open>length\<close>: \<^verbatim>\<open>undefined\<close> and an
  object convert to NaN, \<^verbatim>\<open>null\<close> and \<^verbatim>\<open>false\<close> to 0, \<^verbatim>\<open>true\<close> to 1; a string is
  converted as above, and an array through its text.
\<close>

fun greater_than_zero :: "jsval \<Rightarrow> bool outcome" where
  "greater_than_zero JUndefined = Normal False"
| "greater_than_zero JNull = Normal False"
| "greater_than_zero (JBool b) = Normal b"
| "greater_than_zero (JNum q t) = Normal (0 < q)"
| "greater_than_zero (JStr s) =
     (case string_positive s of None \<Rightarrow> NotModelled | Some b \<Rightarrow> Normal b)"
| "greater_than_zero (JArr xs) =
     (case join xs of
        Inl e \<Rightarrow> Throw e
      | Inr s \<Rightarrow> (case string_positive s of None \<Rightarrow> NotModelled | Some b \<Rightarrow> Normal b))"
| "greater_than_zero (JObj kvs) =
     (if map_of kvs ''toString'' = None then Normal False else Throw TypeError)"

section \<open>The manager's state\<close>

text \<open>
  The object behind \<^verbatim>\<open>this.ws\<close>: what the manager can do to it is \<^verbatim>\<open>send\<close> and
  \<^verbatim>\<open>close\<close>. The record keeps whether \<^verbatim>\<open>close()\<close> has been called on it, the
  packets handed to \<^verbatim>\<open>send\<close> (newest last), and whether \<^verbatim>\<open>send\<close> throws.
\<close>

record packet =
  action :: string
  message :: string
  messages :: jsval
  packetConversationId :: "string option"
  userInfo :: jsval

record websocket =
  closeCalled :: bool
  outbox :: "packet list"
  sendThrows :: bool

text \<open>
  The fields of \<^verbatim>\<open>WebSocketManager\<close>. A callback field holds a caller's function or
  \<^verbatim>\<open>null\<close>; the model keeps whether one is registered, and records every
  invocation (below) instead of running the caller's code. \<open>ws\<close> and
  \<open>conversationId\<close> are \<open>None\<close> when the field is \<^verbatim>\<open>null\<close>.
\<close>

record manager =
  ws :: "websocket option"
  isConnected :: bool
  isConnecting :: bool
  messageCallback :: bool
  infoCallback :: bool
  completionCallback :: bool
  currentMessage :: string
  hasContent :: bool
  shouldCreateNewMessage :: bool
  conversationId :: "string option"

text \<open>The state the constructor leaves.\<close>

definition new_manager :: manager where
  "new_manager =
     \<lparr> ws = None, isConnected = False, isConnecting = False,
       messageCallback = False, infoCallback = False, completionCallback = False,
       currentMessage = [], hasContent = False, shouldCreateNewMessage = False,
       conversationId = None \<rparr>"

text \<open>
  One invocation of a caller's callback, with its arguments:
  \<^verbatim>\<open>messageCallback(text, isNewMessage)\<close>, \<^verbatim>\<open>infoCallback(infoMessage)\<close>,
  \<^verbatim>\<open>completionCallback()\<close>. The callbacks are taken to return normally.
\<close>

datatype callback =
    OnMessage jsval bool
  | OnInfo jsval
  | OnComplete

section \<open>close\<close>

text \<open>
  \<^verbatim>\<open>close()\<close>: \<^verbatim>\<open>this.ws.close()\<close> when \<^verbatim>\<open>this.ws && this.isConnected\<close>; then the
  message state and two of the three callbacks are reset. \<^verbatim>\<open>messageCallback\<close>,
  \<^verbatim>\<open>isConnected\<close> and \<^verbatim>\<open>conversationId\<close> are not assigned.
\<close>

definition close :: "manager \<Rightarrow> manager" where
  "close m =
     m\<lparr> ws := (if isConnected m then map_option (\<lambda>s. s\<lparr>closeCalled := True\<rparr>) (ws m) else ws m),
        currentMessage := [],
        hasContent := False,
        shouldCreateNewMessage := False,
        infoCallback := False,
        completionCallback := False \<rparr>"

section \<open>handleStreamingMessage\<close>

text \<open>
  The body of the \<^verbatim>\<open>contentBlockDelta\<close> branch once its guard holds, with \<open>s\<close> the
  text that \<^verbatim>\<open>+=\<close> appends: the accumulator grows, \<open>hasContent\<close> is set, the flag
  \<open>shouldCreateNewMessage\<close> is read and cleared, and the message callback (if one is
  registered) gets the whole accumulated text.
\<close>

definition appendDelta :: "string \<Rightarrow> manager \<Rightarrow> callback list \<times> manager" where
  "appendDelta s m =
     (let m1 = m\<lparr>currentMessage := currentMessage m @ s, hasContent := True\<rparr>;
          isNewMessage = shouldCreateNewMessage m1;
          m2 = (if shouldCreateNewMessage m1 then m1\<lparr>shouldCreateNewMessage := False\<rparr> else m1)
      in (if messageCallback m2 then [OnMessage (JStr (currentMessage m2)) isNewMessage] else [], m2))"

text \<open>
  The \<^verbatim>\<open>contentBlockDelta\<close> branch after \<^verbatim>\<open>const deltaText = data.data.delta.text\<close>.
  The guard \<^verbatim>\<open>deltaText && deltaText.length > 0\<close> holds of a string exactly when it is
  non-empty and of an array exactly when it has an element; of an object it holds when
  its own \<^verbatim>\<open>length\<close> is greater than zero; it fails for \<^verbatim>\<open>undefined\<close>, \<^verbatim>\<open>null\<close>,
  booleans and numbers (falsy, or no \<^verbatim>\<open>length\<close>). A conversion that throws does so
  before anything is assigned.
\<close>

definition contentBlockDelta :: "jsval \<Rightarrow> manager \<Rightarrow> (callback list \<times> manager) outcome" where
  "contentBlockDelta deltaText m =
     (case deltaText of
        JStr s \<Rightarrow> if s \<noteq> [] then Normal (appendDelta s m) else Normal ([], m)
      | JArr xs \<Rightarrow>
          if xs \<noteq> [] then
            (case to_string (JArr xs) of
               Inl e \<Rightarrow> Throw e
             | Inr s \<Rightarrow> Normal (appendDelta s m))
          else Normal ([], m)
      | JObj kvs \<Rightarrow>
          (case greater_than_zero (case map_of kvs ''length'' of None \<Rightarrow> JUndefined | Some v \<Rightarrow> v) of
             Normal b \<Rightarrow>
               if b then
                 (case to_string (JObj kvs) of
                    Inl e \<Rightarrow> Throw e
                  | Inr s \<Rightarrow> Normal (appendDelta s m))
               else Normal ([], m)
           | Throw e \<Rightarrow> Throw e
           | NotModelled \<Rightarrow> NotModelled)
      | _ \<Rightarrow> Normal ([], m))"

definition handleStreamingMessage :: "jsval \<Rightarrow> manager \<Rightarrow> (callback list \<times> manager) outcome" where
  "handleStreamingMessage data m =
     (case get data ''type'' of
        Inl e \<Rightarrow> Throw e
      | Inr ty \<Rightarrow>
          if ty = JStr ''messageStart'' then
            Normal ([], m\<lparr>currentMessage := [], hasContent := False, shouldCreateNewMessage := False\<rparr>)
          else if ty = JStr ''contentBlockDelta'' then
            (case get_of (get_of (get data ''data'') ''delta'') ''text'' of
               Inl e \<Rightarrow> Throw e
             | Inr deltaText \<Rightarrow> contentBlockDelta deltaText m)
          else if ty = JStr ''breakTokenType'' then
            (if hasContent m \<and> currentMessage m \<noteq> [] then
               Normal (if messageCallback m then [OnMessage (JStr (currentMessage m)) False] else [],
                       m\<lparr>currentMessage := [], hasContent := False, shouldCreateNewMessage := True\<rparr>)
             else Normal ([], m))
          else if ty = JStr ''messageStop'' then
            Normal (if completionCallback m then [OnComplete] else [], close m)
          else if ty = JStr ''info'' then
            (if infoCallback m then
               (case get data ''data'' of
                  Inl e \<Rightarrow> Throw e
                | Inr d \<Rightarrow>
                    (case get d ''message'' of
                       Inl e \<Rightarrow> Throw e
                     | Inr msg \<Rightarrow> Normal ([OnInfo (if truthy msg then msg else d)], m)))
             else Normal ([], m))
          else
            (case get data ''message'' of
               Inl e \<Rightarrow> Throw e
             | Inr msg \<Rightarrow>
                 if truthy msg \<and> messageCallback m then
                   Normal (OnMessage msg False # (if completionCallback m then [OnComplete] else []),
                           close m)
                 else Normal ([], m)))"

text \<open>
  \<^verbatim>\<open>ws.onmessage\<close>: the event's text either fails \<^verbatim>\<open>JSON.parse\<close> or parses to a
  value; the handler runs inside \<^verbatim>\<open>try\<close>, and the \<^verbatim>\<open>catch\<close> only logs. Every throw
  of the handler happens before its first assignment, so a caught throw leaves the
  state as it was. The result is \<open>None\<close> only where the handler is \<open>NotModelled\<close>.
\<close>

datatype event_data =
    Malformed
  | Json jsval

definition onmessage :: "event_data \<Rightarrow> manager \<Rightarrow> (callback list \<times> manager) option" where
  "onmessage ev m =
     (case ev of
        Malformed \<Rightarrow> Some ([], m)
      | Json data \<Rightarrow>
          (case handleStreamingMessage data m of
             Normal r \<Rightarrow> Some r
           | Throw e \<Rightarrow> Some ([], m)
           | NotModelled \<Rightarrow> None))"

text \<open>
  The events of one connection, delivered in order on the single callback queue:
  the callbacks invoked, in order, and the final state.
\<close>

fun run :: "event_data list \<Rightarrow> manager \<Rightarrow> (callback list \<times> manager) option" where
  "run [] m = Some ([], m)"
| "run (ev # evs) m =
     (case onmessage ev m of
        None \<Rightarrow> None
      | Some (cs, m1) \<Rightarrow>
          (case run evs m1 of
             None \<Rightarrow> None
           | Some (cs', m2) \<Rightarrow> Some (cs @ cs', m2)))"

text \<open>
  The same events as the socket delivers them. The handler is installed on
  \<^verbatim>\<open>this.ws\<close>, and a WebSocket fires no \<^verbatim>\<open>message\<close> event once \<^verbatim>\<open>close()\<close> has been
  called on it (its ready state is no longer open): the events that arrive after that
  are not handled.
\<close>

definition socket_open :: "manager \<Rightarrow> bool" where
  "socket_open m = (case ws m of None \<Rightarrow> False | Some s \<Rightarrow> \<not> closeCalled s)"

fun deliver :: "event_data list \<Rightarrow> manager \<Rightarrow> (callback list \<times> manager) option" where
  "deliver [] m = Some ([], m)"
| "deliver (ev # evs) m =
     (if socket_open m then
        (case onmessage ev m of
           None \<Rightarrow> None
         | Some (cs, m1) \<Rightarrow>
             (case deliver evs m1 of
                None \<Rightarrow> None
              | Some (cs', m2) \<Rightarrow> Some (cs @ cs', m2)))
      else Some ([], m))"

section \<open>The frames of the protocol\<close>

text \<open>
  The frame kinds of the streaming protocol and the JSON envelope of each, as the
  server sends them: the values \<^verbatim>\<open>handleStreamingMessage\<close> is written for. An info
  frame carries its text either as \<^verbatim>\<open>data.message\<close> or as \<^verbatim>\<open>data\<close> itself.
\<close>

datatype frame =
    MessageStart
  | ContentDelta string
  | BreakToken
  | MessageStop
  | Info string
  | InfoPlain string
  | Legacy string

fun envelope :: "frame \<Rightarrow> jsval" where
  "envelope MessageStart = JObj [(''type'', JStr ''messageStart'')]"
| "envelope (ContentDelta t) =
     JObj [(''type'', JStr ''contentBlockDelta''),
           (''data'', JObj [(''delta'', JObj [(''text'', JStr t)])])]"
| "envelope BreakToken = JObj [(''type'', JStr ''breakTokenType'')]"
| "envelope MessageStop = JObj [(''type'', JStr ''messageStop'')]"
| "envelope (Info t) = JObj [(''type'', JStr ''info''), (''data'', JObj [(''message'', JStr t)])]"
| "envelope (InfoPlain t) = JObj [(''type'', JStr ''info''), (''data'', JStr t)]"
| "envelope (Legacy t) = JObj [(''message'', JStr t)]"

definition receive :: "frame \<Rightarrow> event_data" where
  "receive f = Json (envelope f)"

section \<open>The conversation identity\<close>

text \<open>
  \<^verbatim>\<open>localStorage\<close>, as far as the manager uses it: the value under the key
  \<^verbatim>\<open>currentConversationId\<close> (\<open>None\<close> when the key is absent) and, for each of the
  three operations, whether the browser makes it throw. Every use is inside a
  \<^verbatim>\<open>try\<close> whose \<^verbatim>\<open>catch\<close> only logs.
\<close>

record storage =
  item :: "string option"
  getItemThrows :: bool
  setItemThrows :: bool
  removeItemThrows :: bool

text \<open>
  \<^verbatim>\<open>generateConversationId\<close>: every \<^verbatim>\<open>x\<close> and \<^verbatim>\<open>y\<close> of the template is replaced,
  left to right, by a hexadecimal digit drawn from \<^verbatim>\<open>Math.random() * 16 | 0\<close>.
  \<open>rnd i\<close> stands for the \<open>i\<close>-th draw, taken modulo 16; \<^verbatim>\<open>r & 0x3 | 0x8\<close> is
  \<open>r mod 4 + 8\<close>.
\<close>

definition hex_digit :: "nat \<Rightarrow> char" where
  "hex_digit v = ''0123456789abcdef'' ! (v mod 16)"

fun replace_xy :: "(nat \<Rightarrow> nat) \<Rightarrow> nat \<Rightarrow> string \<Rightarrow> string" where
  "replace_xy rnd i [] = []"
| "replace_xy rnd i (c # cs) =
     (if c = CHR ''x'' then hex_digit (rnd i mod 16) # replace_xy rnd (Suc i) cs
      else if c = CHR ''y'' then hex_digit ((rnd i mod 16) mod 4 + 8) # replace_xy rnd (Suc i) cs
      else c # replace_xy rnd i cs)"

definition generateConversationId :: "(nat \<Rightarrow> nat) \<Rightarrow> string" where
  "generateConversationId rnd =
     ''conv_'' @ replace_xy rnd 0 ''xxxxxxxx-xxxx-4xxx-yxxx-xxxxxxxxxxxx''"

definition startNewConversation ::
  "(nat \<Rightarrow> nat) \<Rightarrow> manager \<Rightarrow> storage \<Rightarrow> string option \<times> manager \<times> storage" where
  "startNewConversation rnd m st =
     (let m1 = m\<lparr>conversationId := Some (generateConversationId rnd)\<rparr>;
          st1 = (if setItemThrows st then st else st\<lparr>item := conversationId m1\<rparr>)
      in (conversationId m1, m1, st1))"

text \<open>
  \<^verbatim>\<open>!this.conversationId\<close> and \<^verbatim>\<open>if (stored)\<close> are truthiness tests on a string or
  \<^verbatim>\<open>null\<close>: \<^verbatim>\<open>null\<close> and the empty string are falsy.
\<close>

definition truthy_string :: "string option \<Rightarrow> bool" where
  "truthy_string v = (case v of None \<Rightarrow> False | Some s \<Rightarrow> s \<noteq> [])"

definition getConversationId ::
  "(nat \<Rightarrow> nat) \<Rightarrow> manager \<Rightarrow> storage \<Rightarrow> string option \<times> manager \<times> storage" where
  "getConversationId rnd m st =
     (if \<not> truthy_string (conversationId m) then
        (if \<not> getItemThrows st \<and> truthy_string (item st) then
           (let m1 = m\<lparr>conversationId := item st\<rparr> in (conversationId m1, m1, st))
         else
           (case startNewConversation rnd m st of (r, m1, st1) \<Rightarrow> (conversationId m1, m1, st1)))
      else (conversationId m, m, st))"

definition clearConversation :: "manager \<Rightarrow> storage \<Rightarrow> manager \<times> storage" where
  "clearConversation m st =
     (m\<lparr>conversationId := None\<rparr>,
      if removeItemThrows st then st else st\<lparr>item := None\<rparr>)"

definition setConversationId :: "string \<Rightarrow> manager \<Rightarrow> storage \<Rightarrow> manager \<times> storage" where
  "setConversationId c m st =
     (m\<lparr>conversationId := Some c\<rparr>,
      if setItemThrows st then st else st\<lparr>item := Some c\<rparr>)"

section \<open>connect, sendMessage, sendMessageAndWaitForResponse\<close>

text \<open>
  \<^verbatim>\<open>connect()\<close> resolves at once when the manager is connected or connecting.
  Otherwise the promise settles with what the browser does with
  \<^verbatim>\<open>new WebSocket(WEBSOCKET_API)\<close>: the constructor throws, or it returns a socket
  that fires \<^verbatim>\<open>onopen\<close>, or one that fires \<^verbatim>\<open>onerror\<close>.
\<close>

datatype transport =
    ConstructorThrows
  | Opens websocket
  | Errors websocket

definition connect :: "transport \<Rightarrow> manager \<Rightarrow> (js_error + unit) \<times> manager" where
  "connect tr m =
     (if isConnected m \<or> isConnecting m then (Inr (), m)
      else
        (case tr of
           ConstructorThrows \<Rightarrow> (Inl TransportError, m\<lparr>isConnecting := False\<rparr>)
         | Opens s \<Rightarrow> (Inr (), m\<lparr>ws := Some s, isConnected := True, isConnecting := False\<rparr>)
         | Errors s \<Rightarrow>
             (Inl TransportError, m\<lparr>ws := Some s, isConnected := False, isConnecting := False\<rparr>)))"

text \<open>
  \<^verbatim>\<open>sendMessage(message, messages, userInfo)\<close>: \<open>Inl\<close> is the rejection of the
  promise, \<open>Inr ()\<close> its resolution. The rejection for a manager that is not
  connected comes before anything else is read or written.
\<close>

definition sendMessage ::
  "string \<Rightarrow> jsval \<Rightarrow> jsval \<Rightarrow> (nat \<Rightarrow> nat) \<Rightarrow> manager \<Rightarrow> storage
     \<Rightarrow> (js_error + unit) \<times> manager \<times> storage" where
  "sendMessage msg msgs ui rnd m st =
     (if \<not> isConnected m then (Inl NotConnected, m, st)
      else
        (case getConversationId rnd m st of
           (cid, m1, st1) \<Rightarrow>
             (let p = \<lparr> action = ''sendMessage'', message = msg, messages = msgs,
                        packetConversationId = cid, userInfo = ui \<rparr>
              in case ws m1 of
                   None \<Rightarrow> (Inl TypeError, m1, st1)
                 | Some s \<Rightarrow>
                     if sendThrows s then (Inl SendError, m1, st1)
                     else (Inr (), m1\<lparr>ws := Some (s\<lparr>outbox := outbox s @ [p]\<rparr>)\<rparr>, st1))))"

text \<open>
  \<^verbatim>\<open>sendMessageAndWaitForResponse\<close>: registers the three callbacks (\<open>False\<close> for
  \<^verbatim>\<open>null\<close>), connects and sends; on a rejection it calls \<^verbatim>\<open>close()\<close> and rethrows.
\<close>

definition sendMessageAndWaitForResponse ::
  "string \<Rightarrow> jsval \<Rightarrow> bool \<Rightarrow> bool \<Rightarrow> bool \<Rightarrow> jsval \<Rightarrow> transport \<Rightarrow> (nat \<Rightarrow> nat)
     \<Rightarrow> manager \<Rightarrow> storage \<Rightarrow> (js_error + bool) \<times> manager \<times> storage" where
  "sendMessageAndWaitForResponse msg msgs onMessageReceived onInfoReceived onMessageComplete ui tr rnd m st =
     (let m0 = m\<lparr> messageCallback := onMessageReceived,
                   infoCallback := onInfoReceived,
                   completionCallback := onMessageComplete \<rparr>
      in case connect tr m0 of
           (Inl e, m1) \<Rightarrow> (Inl e, close m1, st)
         | (Inr u, m1) \<Rightarrow>
             (case sendMessage msg msgs ui rnd m1 st of
                (Inl e, m2, st2) \<Rightarrow> (Inl e, close m2, st2)
              | (Inr u, m2, st2) \<Rightarrow> (Inr True, m2, st2)))"

section \<open>A first turn, and the frames that are dropped\<close>

text \<open>
  The manager after its first \<^verbatim>\<open>sendMessageAndWaitForResponse\<close> has resolved: all three
  callbacks supplied, the socket opened, the storage empty and working, every random
  draw 0. The frames of the turn arrive in this state.
\<close>

definition first_turn :: manager where
  "first_turn =
     fst (snd (sendMessageAndWaitForResponse ''Hello'' (JArr []) True True True JNull
       (Opens \<lparr>closeCalled = False, outbox = [], sendThrows = False\<rparr>) (\<lambda>i. 0) new_manager
       \<lparr>item = None, getItemThrows = False, setItemThrows = False, removeItemThrows = False\<rparr>))"

text \<open>
  The type tags \<^verbatim>\<open>handleStreamingMessage\<close> compares \<^verbatim>\<open>data.type\<close> with.
\<close>

definition recognized_type :: "jsval \<Rightarrow> bool" where
  "recognized_type ty =
     (ty = JStr ''messageStart'' \<or> ty = JStr ''contentBlockDelta'' \<or> ty = JStr ''breakTokenType''
      \<or> ty = JStr ''messageStop'' \<or> ty = JStr ''info'')"

text \<open>
  The events that reach no branch with an effect: text that does not parse; a value
  whose \<^verbatim>\<open>type\<close> cannot be read (\<^verbatim>\<open>null\<close>); a value whose \<^verbatim>\<open>type\<close> is none of the
  five tags and whose \<^verbatim>\<open>message\<close> is falsy or absent.
\<close>

definition dropped :: "event_data \<Rightarrow> bool" where
  "dropped ev =
     (case ev of
        Malformed \<Rightarrow> True
      | Json data \<Rightarrow>
          (case get data ''type'' of
             Inl e \<Rightarrow> True
           | Inr ty \<Rightarrow>
               \<not> recognized_type ty
               \<and> (case get data ''message'' of Inl e \<Rightarrow> True | Inr msg \<Rightarrow> \<not> truthy msg)))"

section \<open>The callbacks after the completion\<close>

text \<open>
  The invocations that follow the first completion invocation of a callback sequence,
  and the invocations that are message invocations.
\<close>

fun after_completion :: "callback list \<Rightarrow> callback list" where
  "after_completion [] = []"
| "after_completion (c # cs) = (if c = OnComplete then cs else after_completion cs)"


section \<open>Events around a delta\<close>




text \<open>
  A delta whose text is an array with an element that prints as the empty string, such
  as \<^verbatim>\<open>[""]\<close>, \<^verbatim>\<open>[null]\<close> or \<^verbatim>\<open>[[]]\<close>: the guard holds (the array's \<^verbatim>\<open>length\<close> is
  positive) and what is appended is the empty string.
\<close>

definition blank_delta :: "event_data \<Rightarrow> bool" where
  "blank_delta ev =
     (case ev of
        Malformed \<Rightarrow> False
      | Json data \<Rightarrow>
          get data ''type'' = Inr (JStr ''contentBlockDelta'')
          \<and> (case get_of (get_of (get data ''data'') ''delta'') ''text'' of
                Inr (JArr xs) \<Rightarrow> xs \<noteq> [] \<and> join xs = Inr []
              | _ \<Rightarrow> False))"

text \<open>
  The events for which the outcome of the handler is left to the engine: a delta whose
  text is an object with a \<^verbatim>\<open>length\<close> that the two permitted roundings compare
  differently with zero.
\<close>

definition engine_dependent :: "event_data \<Rightarrow> bool" where
  "engine_dependent ev =
     (case ev of
        Malformed \<Rightarrow> False
      | Json data \<Rightarrow>
          get data ''type'' = Inr (JStr ''contentBlockDelta'')
          \<and> (case get_of (get_of (get data ''data'') ''delta'') ''text'' of
                Inr (JObj kvs) \<Rightarrow>
                  greater_than_zero (case map_of kvs ''length'' of None \<Rightarrow> JUndefined | Some v \<Rightarrow> v)
                    = NotModelled
              | _ \<Rightarrow> False))"

section \<open>Sequences of calls on the manager\<close>




section \<open>Calls that do not assign the conversation identity\<close>

text \<open>
  The calls on the manager other than \<^verbatim>\<open>clearConversation\<close>, \<^verbatim>\<open>setConversationId\<close>
  and \<^verbatim>\<open>startNewConversation\<close>: \<^verbatim>\<open>getConversationId\<close>, \<^verbatim>\<open>sendMessage\<close>,
  \<^verbatim>\<open>sendMessageAndWaitForResponse\<close>, an event handled by \<^verbatim>\<open>ws.onmessage\<close>, and
  \<^verbatim>\<open>close()\<close>; each with its arguments and, where it may draw random digits, the
  draws. A sequence of them is performed on the manager and the storage.
\<close>

datatype operation =
    GetId "nat \<Rightarrow> nat"
  | Send string jsval jsval "nat \<Rightarrow> nat"
  | Turn string jsval bool bool bool jsval transport "nat \<Rightarrow> nat"
  | Receive event_data
  | CloseCall

fun perform :: "operation \<Rightarrow> manager \<times> storage \<Rightarrow> (manager \<times> storage) option" where
  "perform (GetId rnd) (m, st) = Some (snd (getConversationId rnd m st))"
| "perform (Send msg msgs ui rnd) (m, st) = Some (snd (sendMessage msg msgs ui rnd m st))"
| "perform (Turn msg msgs onMessageReceived onInfoReceived onMessageComplete ui tr rnd) (m, st) =
     Some (snd (sendMessageAndWaitForResponse msg msgs onMessageReceived onInfoReceived
                  onMessageComplete ui tr rnd m st))"
| "perform (Receive ev) (m, st) =
     (case onmessage ev m of
        None \<Rightarrow> None
      | Some (cs, m1) \<Rightarrow> Some (m1, st))"
| "perform CloseCall (m, st) = Some (close m, st)"

fun perform_all :: "operation list \<Rightarrow> manager \<times> storage \<Rightarrow> (manager \<times> storage) option" where
  "perform_all [] x = Some x"
| "perform_all (p # ps) x =
     (case perform p x of
        None \<Rightarrow> None
      | Some y \<Rightarrow> perform_all ps y)"

section \<open>Properties of close\<close>

lemma close_fields:
  "currentMessage (close m) = []"
  "hasContent (close m) = False"
  "shouldCreateNewMessage (close m) = False"
  "infoCallback (close m) = False"
  "completionCallback (close m) = False"
  "messageCallback (close m) = messageCallback m"
  "conversationId (close m) = conversationId m"
  "isConnected (close m) = isConnected m"
  "isConnecting (close m) = isConnecting m"
  by (simp_all add: close_def)

text \<open>
  C8. \<^verbatim>\<open>close()\<close> is defined in every state; closing twice leaves the state that
  closing once leaves; it empties \<open>currentMessage\<close>, clears \<open>hasContent\<close> and
  \<open>shouldCreateNewMessage\<close>, and keeps the conversation identity.
\<close>

theorem close_idempotent_resets:
  "close (close m) = close m
   \<and> currentMessage (close m) = []
   \<and> hasContent (close m) = False
   \<and> shouldCreateNewMessage (close m) = False
   \<and> conversationId (close m) = conversationId m"
proof -
  have "close (close m) = close m"
    by (cases "ws m") (simp_all add: close_def)
  then show ?thesis
    by (simp add: close_fields)
qed

section \<open>Sending without a connection\<close>

text \<open>
  C7. When \<open>isConnected\<close> is false, \<^verbatim>\<open>sendMessage\<close> rejects with the not-connected
  error and the manager (accumulator fields, conversation identity, the socket's
  outbox) and the storage are exactly as before the call.
\<close>

theorem sendMessage_not_connected:
  assumes "\<not> isConnected m"
  shows "sendMessage msg msgs ui rnd m st = (Inl NotConnected, m, st)"
  using assms by (simp add: sendMessage_def)

theorem sendMessage_not_connected_witness:
  "\<not> isConnected new_manager
   \<and> sendMessage ''hello'' (JArr []) JNull (\<lambda>i. 0) new_manager
        \<lparr>item = None, getItemThrows = False, setItemThrows = False, removeItemThrows = False\<rparr>
     = (Inl NotConnected, new_manager,
        \<lparr>item = None, getItemThrows = False, setItemThrows = False, removeItemThrows = False\<rparr>)"
proof -
  have h: "\<not> isConnected new_manager"
    by (simp add: new_manager_def)
  show ?thesis
    using h sendMessage_not_connected [OF h] by simp
qed

section \<open>The frames, one at a time\<close>

text \<open>What \<^verbatim>\<open>ws.onmessage\<close> does with the envelope of each frame kind.\<close>

lemma appendDelta_eq:
  "appendDelta s m =
     (if messageCallback m
      then [OnMessage (JStr (currentMessage m @ s)) (shouldCreateNewMessage m)] else [],
      m\<lparr>currentMessage := currentMessage m @ s, hasContent := True,
         shouldCreateNewMessage := False\<rparr>)"
  by (cases "shouldCreateNewMessage m") (simp_all add: appendDelta_def Let_def)

lemma onmessage_MessageStart:
  "onmessage (receive MessageStart) m =
     Some ([], m\<lparr>currentMessage := [], hasContent := False, shouldCreateNewMessage := False\<rparr>)"
  by (simp add: onmessage_def receive_def handleStreamingMessage_def)

lemma onmessage_ContentDelta:
  "onmessage (receive (ContentDelta t)) m =
     (if t = [] then Some ([], m)
      else Some (if messageCallback m
                 then [OnMessage (JStr (currentMessage m @ t)) (shouldCreateNewMessage m)] else [],
                 m\<lparr>currentMessage := currentMessage m @ t, hasContent := True,
                    shouldCreateNewMessage := False\<rparr>))"
  by (simp add: onmessage_def receive_def handleStreamingMessage_def get_of_def
        contentBlockDelta_def appendDelta_eq)

lemma onmessage_BreakToken:
  "onmessage (receive BreakToken) m =
     (if hasContent m \<and> currentMessage m \<noteq> [] then
        Some (if messageCallback m then [OnMessage (JStr (currentMessage m)) False] else [],
              m\<lparr>currentMessage := [], hasContent := False, shouldCreateNewMessage := True\<rparr>)
      else Some ([], m))"
  by (simp add: onmessage_def receive_def handleStreamingMessage_def)

lemma onmessage_MessageStop:
  "onmessage (receive MessageStop) m =
     Some (if completionCallback m then [OnComplete] else [], close m)"
  by (simp add: onmessage_def receive_def handleStreamingMessage_def)

lemma onmessage_Info:
  "onmessage (receive (Info t)) m =
     Some (if infoCallback m
           then [OnInfo (if t \<noteq> [] then JStr t else JObj [(''message'', JStr t)])] else [], m)"
  by (simp add: onmessage_def receive_def handleStreamingMessage_def)

lemma onmessage_InfoPlain:
  "onmessage (receive (InfoPlain t)) m =
     Some (if infoCallback m then [OnInfo (JStr t)] else [], m)"
  by (simp add: onmessage_def receive_def handleStreamingMessage_def)

lemma onmessage_Legacy:
  "onmessage (receive (Legacy t)) m =
     (if t \<noteq> [] \<and> messageCallback m then
        Some (OnMessage (JStr t) False # (if completionCallback m then [OnComplete] else []), close m)
      else Some ([], m))"
  by (simp add: onmessage_def receive_def handleStreamingMessage_def)

lemma run_append:
  "run (xs @ ys) m =
     (case run xs m of
        None \<Rightarrow> None
      | Some (cs, m1) \<Rightarrow>
          (case run ys m1 of None \<Rightarrow> None | Some (cs', m2) \<Rightarrow> Some (cs @ cs', m2)))"
  by (induction xs arbitrary: m) (auto split: option.splits)

lemma onmessage_frame_total: "onmessage (receive f) m \<noteq> None"
  by (cases f)
     (simp_all add: onmessage_MessageStart onmessage_ContentDelta onmessage_BreakToken
        onmessage_MessageStop onmessage_Info onmessage_InfoPlain onmessage_Legacy)

lemma run_frames_total: "run (map receive fs) m \<noteq> None"
proof (induction fs arbitrary: m)
  case Nil
  then show ?case by simp
next
  case (Cons f fs)
  obtain r1 where s1: "onmessage (receive f) m = Some r1"
    using onmessage_frame_total [of f m] by blast
  obtain r2 where s2: "run (map receive fs) (snd r1) = Some r2"
    using Cons.IH [of "snd r1"] by blast
  show ?case
    using s1 s2 by (cases r1; cases r2) simp
qed

text \<open>The text a delta branch appends, when it appends.\<close>

lemma contentBlockDelta_cases:
  assumes "contentBlockDelta v m = Normal r"
  shows "r = ([], m) \<or> (\<exists>s. r = appendDelta s m \<and> (s = [] \<longrightarrow> (\<exists>xs. v = JArr xs \<and> xs \<noteq> [] \<and> join xs = Inr [])))"
proof (cases v)
  case (JStr s)
  then show ?thesis
    using assms by (cases "s = []") (auto simp: contentBlockDelta_def)
next
  case (JArr xs)
  show ?thesis
  proof (cases "xs = []")
    case True
    then show ?thesis using assms JArr by (auto simp: contentBlockDelta_def)
  next
    case False
    then obtain s where s: "join xs = Inr s" and r: "r = appendDelta s m"
      using assms JArr by (cases "join xs") (auto simp: contentBlockDelta_def)
    then show ?thesis
      using JArr False by blast
  qed
next
  case (JObj kvs)
  let ?l = "case map_of kvs ''length'' of None \<Rightarrow> JUndefined | Some v \<Rightarrow> v"
  show ?thesis
  proof (cases "greater_than_zero ?l")
    case (Normal b)
    show ?thesis
    proof (cases b)
      case True
      then have "to_string (JObj kvs) = Inr ''[object Object]'' \<and> r = appendDelta ''[object Object]'' m"
        using assms JObj Normal
        by (cases "map_of kvs ''toString''") (auto simp: contentBlockDelta_def)
      then show ?thesis by auto
    next
      case False
      then show ?thesis
        using assms JObj Normal by (auto simp: contentBlockDelta_def)
    qed
  next
    case (Throw e)
    then show ?thesis using assms JObj by (simp add: contentBlockDelta_def)
  next
    case NotModelled
    then show ?thesis using assms JObj by (simp add: contentBlockDelta_def)
  qed
next
  case JUndefined
  then show ?thesis using assms by (auto simp: contentBlockDelta_def)
next
  case JNull
  then show ?thesis using assms by (auto simp: contentBlockDelta_def)
next
  case (JBool b)
  then show ?thesis using assms by (auto simp: contentBlockDelta_def)
next
  case (JNum q t)
  then show ?thesis using assms by (auto simp: contentBlockDelta_def)
qed


section \<open>Every case of the handler\<close>

text \<open>
  The results \<^verbatim>\<open>ws.onmessage\<close> can have, over all events and all states.
\<close>

lemma handleStreamingMessage_cases:
  assumes "handleStreamingMessage data m = Normal r"
  shows "r = ([], m)
         \<or> r = ([], m\<lparr>currentMessage := [], hasContent := False, shouldCreateNewMessage := False\<rparr>)
         \<or> (\<exists>s. r = appendDelta s m \<and> (s = [] \<longrightarrow> blank_delta (Json data)))
         \<or> (hasContent m \<and> currentMessage m \<noteq> []
              \<and> r = (if messageCallback m then [OnMessage (JStr (currentMessage m)) False] else [],
                      m\<lparr>currentMessage := [], hasContent := False, shouldCreateNewMessage := True\<rparr>))
         \<or> r = (if completionCallback m then [OnComplete] else [], close m)
         \<or> (\<exists>x. r = ([OnInfo x], m))
         \<or> (\<exists>x. r = (OnMessage x False # (if completionCallback m then [OnComplete] else []), close m))"
proof (cases "get data ''type''")
  case (Inl e)
  then show ?thesis using assms by (simp add: handleStreamingMessage_def)
next
  case (Inr ty)
  consider (start) "ty = JStr ''messageStart''"
    | (delta) "ty = JStr ''contentBlockDelta''"
    | (brk) "ty = JStr ''breakTokenType''"
    | (stop) "ty = JStr ''messageStop''"
    | (info) "ty = JStr ''info''"
    | (other) "ty \<noteq> JStr ''messageStart''" "ty \<noteq> JStr ''contentBlockDelta''"
        "ty \<noteq> JStr ''breakTokenType''" "ty \<noteq> JStr ''messageStop''" "ty \<noteq> JStr ''info''"
    by blast
  then show ?thesis
  proof cases
    case start
    then show ?thesis using assms Inr by (simp add: handleStreamingMessage_def)
  next
    case delta
    show ?thesis
    proof (cases "get_of (get_of (get data ''data'') ''delta'') ''text''")
      case (Inl e)
      then show ?thesis using assms Inr delta by (simp add: handleStreamingMessage_def)
    next
      case dt: (Inr v)
      then have c: "contentBlockDelta v m = Normal r"
        using assms Inr delta by (simp add: handleStreamingMessage_def)
      have b: "blank_delta (Json data)" if "v = JArr xs" "xs \<noteq> []" "join xs = Inr []" for xs
        using that Inr delta dt by (simp add: blank_delta_def)
      show ?thesis
        using contentBlockDelta_cases [OF c] b by blast
    qed
  next
    case brk
    show ?thesis
    proof (cases "hasContent m \<and> currentMessage m \<noteq> []")
      case True
      then show ?thesis using assms Inr brk by (simp add: handleStreamingMessage_def)
    next
      case False
      then have "r = ([], m)" using assms Inr brk by (auto simp: handleStreamingMessage_def)
      then show ?thesis by blast
    qed
  next
    case stop
    then have "r = (if completionCallback m then [OnComplete] else [], close m)"
      using assms Inr by (auto simp: handleStreamingMessage_def)
    then show ?thesis by blast
  next
    case info
    show ?thesis
    proof (cases "infoCallback m")
      case False
      then have "r = ([], m)" using assms Inr info by (auto simp: handleStreamingMessage_def)
      then show ?thesis by blast
    next
      case True
      then have "\<exists>x. r = ([OnInfo x], m)"
        using assms Inr info
        by (auto simp: handleStreamingMessage_def split: sum.splits)
      then show ?thesis by blast
    qed
  next
    case other
    show ?thesis
    proof (cases "get data ''message''")
      case (Inl e)
      then show ?thesis using assms Inr other by (simp add: handleStreamingMessage_def)
    next
      case msg: (Inr x)
      show ?thesis
      proof (cases "truthy x \<and> messageCallback m")
        case True
        then have "r = (OnMessage x False # (if completionCallback m then [OnComplete] else []), close m)"
          using assms Inr other msg by (auto simp: handleStreamingMessage_def)
        then show ?thesis by blast
      next
        case False
        then have "r = ([], m)"
          using assms Inr other msg by (auto simp: handleStreamingMessage_def)
        then show ?thesis by blast
      qed
    qed
  qed
qed

lemma onmessage_cases:
  assumes "onmessage ev m = Some r"
  shows "r = ([], m)
         \<or> r = ([], m\<lparr>currentMessage := [], hasContent := False, shouldCreateNewMessage := False\<rparr>)
         \<or> (\<exists>s. r = appendDelta s m \<and> (s = [] \<longrightarrow> blank_delta ev))
         \<or> (hasContent m \<and> currentMessage m \<noteq> []
              \<and> r = (if messageCallback m then [OnMessage (JStr (currentMessage m)) False] else [],
                      m\<lparr>currentMessage := [], hasContent := False, shouldCreateNewMessage := True\<rparr>))
         \<or> r = (if completionCallback m then [OnComplete] else [], close m)
         \<or> (\<exists>x. r = ([OnInfo x], m))
         \<or> (\<exists>x. r = (OnMessage x False # (if completionCallback m then [OnComplete] else []), close m))"
proof (cases ev)
  case Malformed
  then have "r = ([], m)" using assms by (auto simp: onmessage_def)
  then show ?thesis by blast
next
  case (Json data)
  show ?thesis
  proof (cases "handleStreamingMessage data m")
    case (Normal r')
    then have "handleStreamingMessage data m = Normal r"
      using assms Json by (simp add: onmessage_def)
    then show ?thesis
      using handleStreamingMessage_cases [of data m r] Json by simp
  next
    case (Throw e)
    then have "r = ([], m)" using assms Json by (auto simp: onmessage_def)
    then show ?thesis by blast
  next
    case NotModelled
    then show ?thesis using assms Json by (simp add: onmessage_def)
  qed
qed

text \<open>
  The handler has an answer for every event but those that depend on the engine.
\<close>

lemma contentBlockDelta_NotModelled:
  "contentBlockDelta v m = NotModelled \<longleftrightarrow>
     (case v of
        JObj kvs \<Rightarrow>
          greater_than_zero (case map_of kvs ''length'' of None \<Rightarrow> JUndefined | Some v \<Rightarrow> v)
            = NotModelled
      | _ \<Rightarrow> False)"
proof (cases v)
  case (JObj kvs)
  let ?l = "case map_of kvs ''length'' of None \<Rightarrow> JUndefined | Some v \<Rightarrow> v"
  show ?thesis
  proof (cases "greater_than_zero ?l")
    case (Normal b)
    then show ?thesis
      using JObj by (cases "map_of kvs ''toString''") (simp_all add: contentBlockDelta_def)
  next
    case (Throw e)
    then show ?thesis using JObj by (simp add: contentBlockDelta_def)
  next
    case NotModelled
    then show ?thesis using JObj by (simp add: contentBlockDelta_def)
  qed
next
  case (JArr xs)
  then show ?thesis
    by (cases "join xs") (simp_all add: contentBlockDelta_def)
qed (simp_all add: contentBlockDelta_def)

lemma handleStreamingMessage_NotModelled:
  "handleStreamingMessage data m = NotModelled \<longleftrightarrow> engine_dependent (Json data)"
proof (cases "get data ''type''")
  case (Inl e)
  then show ?thesis by (simp add: handleStreamingMessage_def engine_dependent_def)
next
  case (Inr ty)
  show ?thesis
  proof (cases "ty = JStr ''contentBlockDelta''")
    case True
    show ?thesis
    proof (cases "get_of (get_of (get data ''data'') ''delta'') ''text''")
      case (Inl e)
      then show ?thesis
        using Inr True by (simp add: handleStreamingMessage_def engine_dependent_def)
    next
      case dt: (Inr v)
      have "handleStreamingMessage data m = contentBlockDelta v m"
        using Inr True dt by (simp add: handleStreamingMessage_def)
      moreover have "engine_dependent (Json data) =
          (case v of
             JObj kvs \<Rightarrow>
               greater_than_zero (case map_of kvs ''length'' of None \<Rightarrow> JUndefined | Some v \<Rightarrow> v)
                 = NotModelled
           | _ \<Rightarrow> False)"
        using Inr True dt by (simp add: engine_dependent_def)
      ultimately show ?thesis
        by (simp only: contentBlockDelta_NotModelled)
    qed
  next
    case False
    have e: "\<not> engine_dependent (Json data)"
      using Inr False by (simp add: engine_dependent_def)
    have "handleStreamingMessage data m \<noteq> NotModelled"
    proof (cases "get data ''message''")
      case (Inl e)
      then show ?thesis
        using Inr False
        by (auto simp: handleStreamingMessage_def split: sum.splits)
    next
      case msg: (Inr x)
      then show ?thesis
        using Inr False
        by (auto simp: handleStreamingMessage_def split: sum.splits)
    qed
    then show ?thesis using e by simp
  qed
qed

lemma onmessage_None:
  "onmessage ev m = None \<longleftrightarrow> engine_dependent ev"
proof (cases ev)
  case Malformed
  then show ?thesis by (simp add: onmessage_def engine_dependent_def)
next
  case (Json data)
  show ?thesis
  proof (cases "handleStreamingMessage data m")
    case (Normal r)
    then show ?thesis
      using Json handleStreamingMessage_NotModelled [of data m] by (simp add: onmessage_def)
  next
    case (Throw e)
    then show ?thesis
      using Json handleStreamingMessage_NotModelled [of data m] by (simp add: onmessage_def)
  next
    case NotModelled
    then show ?thesis
      using Json handleStreamingMessage_NotModelled [of data m] by (simp add: onmessage_def)
  qed
qed

lemma onmessage_completion:
  assumes "onmessage ev m = Some r"
  shows "count_list (fst r) OnComplete + (if completionCallback (snd r) then 1 else 0)
           = (if completionCallback m then (1::nat) else 0)"
  using onmessage_cases [OF assms]
  by (elim disjE exE conjE) (simp_all add: appendDelta_eq close_fields)

lemma onmessage_fields:
  assumes "onmessage ev m = Some r"
  shows "isConnected (snd r) = isConnected m"
    and "conversationId (snd r) = conversationId m"
    and "messageCallback (snd r) = messageCallback m"
  using onmessage_cases [OF assms]
  by (elim disjE exE conjE; simp add: appendDelta_eq close_fields)+


lemma onmessage_shape:
  assumes "onmessage ev m = Some r"
  shows "OnComplete \<notin> set (fst r)
         \<or> ((\<exists>pre. fst r = pre @ [OnComplete] \<and> OnComplete \<notin> set pre) \<and> snd r = close m)"
  using onmessage_cases [OF assms]
  by (elim disjE exE conjE) (auto simp: appendDelta_eq)

lemma run_completion:
  assumes "run evs m = Some r"
  shows "count_list (fst r) OnComplete + (if completionCallback (snd r) then 1 else 0)
           = (if completionCallback m then (1::nat) else 0)"
  using assms
proof (induction evs arbitrary: m r)
  case Nil
  then show ?case by auto
next
  case (Cons ev evs)
  from Cons.prems obtain r1 r2 where
    s1: "onmessage ev m = Some r1" and s2: "run evs (snd r1) = Some r2"
    and r: "r = (fst r1 @ fst r2, snd r2)"
    by (auto split: option.splits)
  have "count_list (fst r1) OnComplete + (if completionCallback (snd r1) then 1 else 0)
          = (if completionCallback m then (1::nat) else 0)"
    using s1 by (rule onmessage_completion)
  moreover have "count_list (fst r2) OnComplete + (if completionCallback (snd r2) then 1 else 0)
          = (if completionCallback (snd r1) then (1::nat) else 0)"
    using s2 by (rule Cons.IH)
  ultimately show ?case
    by (simp add: r split: if_splits)
qed

section \<open>The completion of a turn\<close>

lemma gen0: "generateConversationId (\<lambda>i. 0) = ''conv_00000000-0000-4000-8000-000000000000''"
  by (simp add: generateConversationId_def hex_digit_def)

lemma first_turn_eq:
  "first_turn =
     \<lparr> ws = Some \<lparr>closeCalled = False,
                   outbox = [\<lparr>action = ''sendMessage'', message = ''Hello'', messages = JArr [],
                              packetConversationId = Some ''conv_00000000-0000-4000-8000-000000000000'',
                              userInfo = JNull\<rparr>],
                   sendThrows = False\<rparr>,
       isConnected = True, isConnecting = False,
       messageCallback = True, infoCallback = True, completionCallback = True,
       currentMessage = [], hasContent = False, shouldCreateNewMessage = False,
       conversationId = Some ''conv_00000000-0000-4000-8000-000000000000'' \<rparr>"
  by (simp add: first_turn_def sendMessageAndWaitForResponse_def connect_def sendMessage_def
        getConversationId_def startNewConversation_def truthy_string_def new_manager_def gen0 Let_def)

text \<open>
  C4. With a completion callback registered, any sequence of frames (of every kind,
  legacy frames and further \<^verbatim>\<open>messageStop\<close> frames too) that ends with a
  \<^verbatim>\<open>messageStop\<close> is processed to the end and invokes the completion callback exactly
  once.
\<close>

theorem completion_exactly_once:
  assumes "completionCallback m"
  shows "\<exists>cs m'. run (map receive (fs @ [MessageStop])) m = Some (cs, m')
           \<and> count_list cs OnComplete = 1"
proof -
  obtain r1 where r1: "run (map receive fs) m = Some r1"
    using run_frames_total [of fs m] by blast
  have run: "run (map receive (fs @ [MessageStop])) m =
          Some (fst r1 @ (if completionCallback (snd r1) then [OnComplete] else []), close (snd r1))"
    using r1 by (cases r1) (simp add: run_append onmessage_MessageStop)
  have "count_list (fst r1) OnComplete + (if completionCallback (snd r1) then 1 else 0) = (1::nat)"
    using run_completion [OF r1] assms by simp
  then have "count_list (fst r1 @ (if completionCallback (snd r1) then [OnComplete] else [])) OnComplete = 1"
    by (simp split: if_splits)
  then show ?thesis
    using run by blast
qed

theorem completion_exactly_once_witness:
  "completionCallback first_turn
   \<and> (\<exists>cs m'. run (map receive ([MessageStart, Legacy ''old'', MessageStop, ContentDelta ''x'']
                                  @ [MessageStop])) first_turn = Some (cs, m')
         \<and> count_list cs OnComplete = 1)"
proof -
  have c: "completionCallback first_turn"
    by (simp add: first_turn_eq)
  show ?thesis
    using c completion_exactly_once [OF c, of "[MessageStart, Legacy ''old'', MessageStop, ContentDelta ''x'']"]
    by blast
qed

section \<open>Frames that are not recognised\<close>

text \<open>
  C5, as stated, fails: a value with an unknown \<^verbatim>\<open>type\<close> and a truthy \<^verbatim>\<open>message\<close>
  reaches the legacy branch. Inserted between two deltas it adds a message and a
  completion invocation, and (through \<^verbatim>\<open>close()\<close>) empties the accumulator, so the
  second delta is reported alone.
\<close>

theorem unknown_type_with_message_is_legacy:
  "map_option fst
     (run [receive (ContentDelta ''a''),
           Json (JObj [(''type'', JStr ''ping''), (''message'', JStr ''X'')]),
           receive (ContentDelta ''b'')] first_turn)
     = Some [OnMessage (JStr ''a'') False, OnMessage (JStr ''X'') False, OnComplete,
             OnMessage (JStr ''b'') False]
   \<and> map_option fst
     (run [receive (ContentDelta ''a''), receive (ContentDelta ''b'')] first_turn)
     = Some [OnMessage (JStr ''a'') False, OnMessage (JStr ''ab'') False]"
proof -
  have leg: "onmessage (Json (JObj [(''type'', JStr ''ping''), (''message'', JStr ''X'')])) m =
         (if messageCallback m
          then Some (OnMessage (JStr ''X'') False # (if completionCallback m then [OnComplete] else []),
                     close m)
          else Some ([], m))" for m
    by (simp add: onmessage_def handleStreamingMessage_def)
  show ?thesis
    by (simp add: leg onmessage_ContentDelta close_fields first_turn_eq)
qed

lemma onmessage_dropped:
  assumes "dropped ev"
  shows "onmessage ev m = Some ([], m)"
proof (cases ev)
  case Malformed
  then show ?thesis by (simp add: onmessage_def)
next
  case (Json data)
  show ?thesis
  proof (cases "get data ''type''")
    case (Inl e)
    then show ?thesis using Json by (simp add: onmessage_def handleStreamingMessage_def)
  next
    case (Inr ty)
    then have ty: "ty \<noteq> JStr ''messageStart''" "ty \<noteq> JStr ''contentBlockDelta''"
        "ty \<noteq> JStr ''breakTokenType''" "ty \<noteq> JStr ''messageStop''" "ty \<noteq> JStr ''info''"
      and msg: "case get data ''message'' of Inl e \<Rightarrow> True | Inr msg \<Rightarrow> \<not> truthy msg"
      using assms Json by (simp_all add: dropped_def recognized_type_def)
    show ?thesis
    proof (cases "get data ''message''")
      case (Inl e)
      then show ?thesis
        using Json \<open>get data ''type'' = Inr ty\<close> ty
        by (simp add: onmessage_def handleStreamingMessage_def)
    next
      case (Inr v)
      then have "\<not> truthy v" using msg by simp
      then show ?thesis
        using Json \<open>get data ''type'' = Inr ty\<close> ty Inr
        by (simp add: onmessage_def handleStreamingMessage_def)
    qed
  qed
qed

lemma run_dropped:
  assumes "dropped ev"
  shows "run (xs @ ev # ys) m = run (xs @ ys) m"
proof -
  have "run (ev # ys) m' = run ys m'" for m'
    using onmessage_dropped [OF assms, of m'] by (simp split: option.splits)
  then show ?thesis
    by (simp only: run_append)
qed

text \<open>
  C5, amended. An event that does not parse, or parses to \<^verbatim>\<open>null\<close>, or parses to a value
  with an unrecognised \<^verbatim>\<open>type\<close> and no truthy top-level \<^verbatim>\<open>message\<close>, changes nothing:
  between two frames, the callbacks invoked and the final state are those of the two
  frames alone (and the two frames are processed to the end).
\<close>

theorem dropped_frame_invisible:
  assumes "dropped ev"
  shows "run [receive f1, ev, receive f2] m = run [receive f1, receive f2] m
         \<and> run [receive f1, receive f2] m \<noteq> None"
proof -
  have "run ([receive f1] @ ev # [receive f2]) m = run ([receive f1] @ [receive f2]) m"
    using assms by (rule run_dropped)
  moreover have "run (map receive [f1, f2]) m \<noteq> None"
    by (rule run_frames_total)
  ultimately show ?thesis by simp
qed

theorem dropped_frame_invisible_witness:
  "dropped (Json (JObj [(''type'', JStr ''ping'')]))
   \<and> dropped Malformed
   \<and> run [receive (ContentDelta ''a''), Json (JObj [(''type'', JStr ''ping'')]),
           receive (ContentDelta ''b'')] first_turn
     = run [receive (ContentDelta ''a''), receive (ContentDelta ''b'')] first_turn
   \<and> run [receive (ContentDelta ''a''), receive (ContentDelta ''b'')] first_turn \<noteq> None"
proof -
  have d: "dropped (Json (JObj [(''type'', JStr ''ping'')]))"
    by (simp add: dropped_def recognized_type_def)
  have e: "dropped Malformed"
    by (simp add: dropped_def)
  show ?thesis
    using d e dropped_frame_invisible [OF d, of "ContentDelta ''a''" "ContentDelta ''b''" first_turn]
    by blast
qed

section \<open>Legacy frames\<close>

text \<open>
  C6, as stated, fails for the empty string: \<^verbatim>\<open>data.message\<close> is then falsy, the guard
  of the legacy branch fails, and no callback is invoked.
\<close>

theorem legacy_empty_text_ignored:
  "run [receive (Legacy [])] first_turn = Some ([], first_turn)"
  by (simp add: onmessage_Legacy)

text \<open>
  C6, amended. For every non-empty string \<open>X\<close>, with message and completion callbacks
  registered on a connected manager, the frame \<^verbatim>\<open>{ "message": X }\<close> alone invokes
  message \<open>(X, false)\<close> once, then completion once, and then \<^verbatim>\<open>close()\<close> runs: the
  socket's \<^verbatim>\<open>close()\<close> is called and the accumulator is reset.
\<close>

theorem legacy_short_circuit:
  assumes "X \<noteq> []" "messageCallback m" "completionCallback m" "isConnected m" "ws m = Some s"
  shows "run [receive (Legacy X)] m = Some ([OnMessage (JStr X) False, OnComplete], close m)
         \<and> ws (close m) = Some (s\<lparr>closeCalled := True\<rparr>)
         \<and> currentMessage (close m) = []
         \<and> hasContent (close m) = False
         \<and> shouldCreateNewMessage (close m) = False"
  using assms by (simp add: onmessage_Legacy close_fields) (simp add: close_def)

theorem legacy_short_circuit_witness:
  "''X'' \<noteq> [] \<and> messageCallback first_turn \<and> completionCallback first_turn
   \<and> isConnected first_turn
   \<and> run [receive (Legacy ''X'')] first_turn
       = Some ([OnMessage (JStr ''X'') False, OnComplete], close first_turn)
   \<and> map_option closeCalled (ws (close first_turn)) = Some True
   \<and> currentMessage (close first_turn) = []"
proof -
  have x: "''X'' \<noteq> []" by simp
  have a: "messageCallback first_turn" and b: "completionCallback first_turn"
    and c: "isConnected first_turn"
    by (simp_all add: first_turn_eq)
  obtain s where s: "ws first_turn = Some s"
    by (simp add: first_turn_eq)
  show ?thesis
    using x a b c legacy_short_circuit [OF x a b c s] by simp
qed

section \<open>What the socket delivers\<close>

lemma deliver_closed: "\<not> socket_open m \<Longrightarrow> deliver evs m = Some ([], m)"
  by (cases evs) simp_all

lemma close_not_open: "isConnected m \<Longrightarrow> \<not> socket_open (close m)"
  by (cases "ws m") (simp_all add: socket_open_def close_def)

lemma after_completion_append:
  "after_completion (xs @ ys) =
     (if OnComplete \<in> set xs then after_completion xs @ ys else after_completion ys)"
  by (induction xs) auto

lemma deliver_completion_last:
  assumes "isConnected m" "deliver evs m = Some r"
  shows "count_list (fst r) OnComplete \<le> 1 \<and> after_completion (fst r) = []"
  using assms
proof (induction evs arbitrary: m r)
  case Nil
  then show ?case by auto
next
  case (Cons ev evs)
  show ?case
  proof (cases "socket_open m")
    case False
    then show ?thesis using Cons.prems(2) by auto
  next
    case True
    with Cons.prems(2) obtain r1 r2 where
      s1: "onmessage ev m = Some r1" and s2: "deliver evs (snd r1) = Some r2"
      and r: "r = (fst r1 @ fst r2, snd r2)"
      by (auto split: option.splits)
    show ?thesis
    proof (cases "OnComplete \<in> set (fst r1)")
      case False
      have "isConnected (snd r1)"
        using onmessage_fields(1) [OF s1] Cons.prems(1) by simp
      then have "count_list (fst r2) OnComplete \<le> 1 \<and> after_completion (fst r2) = []"
        using s2 by (rule Cons.IH)
      then show ?thesis
        using False by (simp add: r after_completion_append)
    next
      case in1: True
      then obtain pre where pre: "fst r1 = pre @ [OnComplete]" "OnComplete \<notin> set pre"
        and cl: "snd r1 = close m"
        using onmessage_shape [OF s1] by blast
      have "\<not> socket_open (snd r1)"
        using cl Cons.prems(1) by (simp add: close_not_open)
      then have "r2 = ([], snd r1)"
        using s2 by (simp add: deliver_closed)
      then show ?thesis
        using pre by (simp add: r after_completion_append)
    qed
  qed
qed

lemma nothing_after_completion:
  assumes "count_list cs OnComplete \<le> 1" "after_completion cs = []" "cs = pre @ OnComplete # post"
  shows "post = []"
proof -
  have "OnComplete \<notin> set pre"
  proof
    assume "OnComplete \<in> set pre"
    then have "count_list pre OnComplete \<noteq> 0"
      by (simp add: count_list_0_iff)
    then have "1 \<le> count_list pre OnComplete"
      by simp
    then show False
      using assms(1) by (simp add: assms(3))
  qed
  then have "after_completion cs = post"
    by (simp add: assms(3) after_completion_append)
  then show ?thesis
    using assms(2) by simp
qed

lemma deliver_total:
  assumes "list_all (\<lambda>ev. \<not> engine_dependent ev) evs"
  shows "deliver evs m \<noteq> None"
  using assms
proof (induction evs arbitrary: m)
  case Nil
  then show ?case by simp
next
  case (Cons ev evs)
  have "onmessage ev m \<noteq> None"
    using Cons.prems onmessage_None [of ev m] by simp
  then obtain r1 where s1: "onmessage ev m = Some r1" by blast
  obtain r2 where s2: "deliver evs (snd r1) = Some r2"
    using Cons.IH [of "snd r1"] Cons.prems by auto
  show ?case
    using s1 s2 by (cases r1; cases r2) simp
qed

text \<open>
  C3. On a connected manager, whatever events arrive on the socket: the completion
  callback is invoked at most once, and no callback at all (message, info or
  completion) is invoked after it. The branches that invoke the completion callback
  call \<^verbatim>\<open>close()\<close> next, and the closed socket delivers none of the events that arrive
  later. Every sequence of events that do not depend on the engine is delivered to the
  end.
\<close>

theorem completion_is_last:
  assumes "isConnected m"
  shows "(list_all (\<lambda>ev. \<not> engine_dependent ev) evs \<longrightarrow> deliver evs m \<noteq> None)
         \<and> (deliver evs m = Some (cs, m') \<longrightarrow>
              count_list cs OnComplete \<le> 1
              \<and> (\<forall>pre post. cs = pre @ OnComplete # post \<longrightarrow> post = []))"
proof -
  have "count_list cs OnComplete \<le> 1 \<and> (\<forall>pre post. cs = pre @ OnComplete # post \<longrightarrow> post = [])"
    if d: "deliver evs m = Some (cs, m')"
  proof -
    have "count_list cs OnComplete \<le> 1 \<and> after_completion cs = []"
      using deliver_completion_last [OF assms d] by simp
    then show ?thesis
      using nothing_after_completion by blast
  qed
  then show ?thesis
    using deliver_total by blast
qed

theorem completion_is_last_witness:
  "isConnected first_turn
   \<and> list_all (\<lambda>ev. \<not> engine_dependent ev)
        (map receive [MessageStart, ContentDelta ''Hi'', MessageStop, ContentDelta ''late'',
                      MessageStop])
   \<and> deliver (map receive [MessageStart, ContentDelta ''Hi'', MessageStop, ContentDelta ''late'',
                           MessageStop]) first_turn
       = Some ([OnMessage (JStr ''Hi'') False, OnComplete],
               close (first_turn\<lparr>currentMessage := ''Hi'', hasContent := True\<rparr>))
   \<and> count_list [OnMessage (JStr ''Hi'') False, OnComplete] OnComplete \<le> 1"
proof -
  let ?fs = "[MessageStart, ContentDelta ''Hi'', MessageStop, ContentDelta ''late'', MessageStop]"
  let ?m = "close (first_turn\<lparr>currentMessage := ''Hi'', hasContent := True\<rparr>)"
  have c: "isConnected first_turn"
    by (simp add: first_turn_eq)
  have e: "list_all (\<lambda>ev. \<not> engine_dependent ev) (map receive ?fs)"
    by (simp add: engine_dependent_def receive_def get_of_def)
  have d: "deliver (map receive ?fs) first_turn = Some ([OnMessage (JStr ''Hi'') False, OnComplete], ?m)"
    by (simp add: onmessage_MessageStart onmessage_ContentDelta onmessage_MessageStop
          socket_open_def close_def first_turn_eq)
  note t = completion_is_last [OF c, of "map receive ?fs" "[OnMessage (JStr ''Hi'') False, OnComplete]" ?m]
  have "count_list [OnMessage (JStr ''Hi'') False, OnComplete] OnComplete \<le> 1"
    using t d by blast
  then show ?thesis
    using c e d by blast
qed

section \<open>A run of deltas\<close>














section \<open>Break tokens\<close>





section \<open>The accumulator invariant\<close>








section \<open>The conversation identity over calls\<close>

lemma generateConversationId_nonempty: "generateConversationId rnd \<noteq> []"
  by (simp add: generateConversationId_def)

lemma replace_x: "replace_xy rnd i (CHR ''x'' # cs) = hex_digit (rnd i mod 16) # replace_xy rnd (Suc i) cs"
  by simp
lemma replace_y: "replace_xy rnd i (CHR ''y'' # cs) = hex_digit (rnd i mod 16 mod 4 + 8) # replace_xy rnd (Suc i) cs"
  by simp
lemma replace_dash: "replace_xy rnd i (CHR ''-'' # cs) = CHR ''-'' # replace_xy rnd i cs"
  by simp
lemma replace_4: "replace_xy rnd i (CHR ''4'' # cs) = CHR ''4'' # replace_xy rnd i cs"
  by simp

lemma generateConversationId_closed:
  "generateConversationId rnd =
     ''conv_''
     @ [hex_digit (rnd 0 mod 16), hex_digit (rnd 1 mod 16), hex_digit (rnd 2 mod 16),
        hex_digit (rnd 3 mod 16), hex_digit (rnd 4 mod 16), hex_digit (rnd 5 mod 16),
        hex_digit (rnd 6 mod 16), hex_digit (rnd 7 mod 16)]
     @ ''-''
     @ [hex_digit (rnd 8 mod 16), hex_digit (rnd 9 mod 16), hex_digit (rnd 10 mod 16),
        hex_digit (rnd 11 mod 16)]
     @ ''-4''
     @ [hex_digit (rnd 12 mod 16), hex_digit (rnd 13 mod 16), hex_digit (rnd 14 mod 16)]
     @ ''-''
     @ [hex_digit (rnd 15 mod 16 mod 4 + 8), hex_digit (rnd 16 mod 16), hex_digit (rnd 17 mod 16),
        hex_digit (rnd 18 mod 16)]
     @ ''-''
     @ [hex_digit (rnd 19 mod 16), hex_digit (rnd 20 mod 16), hex_digit (rnd 21 mod 16),
        hex_digit (rnd 22 mod 16), hex_digit (rnd 23 mod 16), hex_digit (rnd 24 mod 16),
        hex_digit (rnd 25 mod 16), hex_digit (rnd 26 mod 16), hex_digit (rnd 27 mod 16),
        hex_digit (rnd 28 mod 16), hex_digit (rnd 29 mod 16), hex_digit (rnd 30 mod 16)]"
proof -
  have n: "Suc 0 = 1" "Suc 1 = 2" "Suc 2 = 3" "Suc 3 = 4" "Suc 4 = 5" "Suc 5 = 6" "Suc 6 = 7"
    "Suc 7 = 8" "Suc 8 = 9" "Suc 9 = 10" "Suc 10 = 11" "Suc 11 = 12" "Suc 12 = 13" "Suc 13 = 14"
    "Suc 14 = 15" "Suc 15 = 16" "Suc 16 = 17" "Suc 17 = 18" "Suc 18 = 19" "Suc 19 = 20"
    "Suc 20 = 21" "Suc 21 = 22" "Suc 22 = 23" "Suc 23 = 24" "Suc 24 = 25" "Suc 25 = 26"
    "Suc 26 = 27" "Suc 27 = 28" "Suc 28 = 29" "Suc 29 = 30" "Suc 30 = 31"
    by simp_all
  show ?thesis
    unfolding generateConversationId_def
    by (simp only: replace_x replace_y replace_dash replace_4 replace_xy.simps(1) n append.simps)
qed

lemma getConversationId_set:
  assumes "conversationId m = Some c" "c \<noteq> []"
  shows "getConversationId rnd m st = (Some c, m, st)"
  using assms by (simp add: getConversationId_def truthy_string_def)

lemma getConversationId_recovered:
  assumes "\<not> truthy_string (conversationId m)" "\<not> getItemThrows st" "item st = Some s" "s \<noteq> []"
  shows "getConversationId rnd m st = (Some s, m\<lparr>conversationId := Some s\<rparr>, st)"
  using assms by (simp add: getConversationId_def truthy_string_def Let_def)

lemma getConversationId_fresh:
  assumes "\<not> truthy_string (conversationId m)" "getItemThrows st \<or> \<not> truthy_string (item st)"
  shows "getConversationId rnd m st =
           (Some (generateConversationId rnd),
            m\<lparr>conversationId := Some (generateConversationId rnd)\<rparr>,
            if setItemThrows st then st else st\<lparr>item := Some (generateConversationId rnd)\<rparr>)"
  using assms by (auto simp: getConversationId_def startNewConversation_def Let_def)

lemma getConversationId_result:
  "\<exists>c. c \<noteq> [] \<and> fst (getConversationId rnd m st) = Some c
       \<and> conversationId (fst (snd (getConversationId rnd m st))) = Some c"
proof (cases "truthy_string (conversationId m)")
  case True
  then obtain c where "conversationId m = Some c" "c \<noteq> []"
    by (auto simp: truthy_string_def split: option.splits)
  then show ?thesis
    by (simp add: getConversationId_set)
next
  case False
  show ?thesis
  proof (cases "\<not> getItemThrows st \<and> truthy_string (item st)")
    case True
    then obtain s where "item st = Some s" "s \<noteq> []"
      by (auto simp: truthy_string_def split: option.splits)
    then show ?thesis
      using False True by (simp add: getConversationId_recovered)
  next
    case no: False
    then have "getItemThrows st \<or> \<not> truthy_string (item st)" by blast
    then show ?thesis
      using False by (simp add: getConversationId_fresh generateConversationId_nonempty)
  qed
qed

lemma connect_identity: "conversationId (snd (connect tr m)) = conversationId m"
  by (cases tr) (simp_all add: connect_def)

lemma sendMessage_identity:
  assumes "conversationId m = Some c" "c \<noteq> []"
  shows "conversationId (fst (snd (sendMessage msg msgs ui rnd m st))) = Some c"
proof (cases "isConnected m")
  case False
  then show ?thesis using assms by (simp add: sendMessage_def)
next
  case True
  show ?thesis
  proof (cases "ws m")
    case None
    then show ?thesis
      using True assms by (simp add: sendMessage_def getConversationId_set)
  next
    case (Some s)
    then show ?thesis
      using True assms by (simp add: sendMessage_def getConversationId_set Let_def)
  qed
qed

lemma turn_identity:
  assumes "conversationId m = Some c" "c \<noteq> []"
  shows "conversationId (fst (snd (sendMessageAndWaitForResponse msg msgs a b d ui tr rnd m st))) = Some c"
proof -
  let ?m0 = "m\<lparr>messageCallback := a, infoCallback := b, completionCallback := d\<rparr>"
  obtain r1 m1 where c1: "connect tr ?m0 = (r1, m1)"
    by (cases "connect tr ?m0") blast
  have i1: "conversationId m1 = Some c"
    using connect_identity [of tr ?m0] c1 assms(1) by simp
  show ?thesis
  proof (cases r1)
    case (Inl e)
    then show ?thesis
      using c1 i1 by (simp add: sendMessageAndWaitForResponse_def close_fields)
  next
    case (Inr u)
    obtain r2 m2 st2 where s2: "sendMessage msg msgs ui rnd m1 st = (r2, m2, st2)"
      by (cases "sendMessage msg msgs ui rnd m1 st") blast
    have i2: "conversationId m2 = Some c"
      using sendMessage_identity [OF i1 assms(2), of msg msgs ui rnd st] s2 by simp
    show ?thesis
      using c1 Inr s2 i2
      by (cases r2) (simp_all add: sendMessageAndWaitForResponse_def close_fields)
  qed
qed

lemma perform_identity:
  assumes "conversationId (fst x) = Some c" "c \<noteq> []" "perform p x = Some y"
  shows "conversationId (fst y) = Some c"
proof (cases x)
  case (Pair m st)
  have i: "conversationId m = Some c" using assms(1) Pair by simp
  show ?thesis
  proof (cases p)
    case (GetId rnd)
    then show ?thesis
      using assms(3) Pair i getConversationId_set [OF i assms(2), of rnd st] by auto
  next
    case (Send msg msgs ui rnd)
    then show ?thesis
      using assms(3) Pair i sendMessage_identity [OF i assms(2), of msg msgs ui rnd st] by auto
  next
    case (Turn msg msgs a b d ui tr rnd)
    then show ?thesis
      using assms(3) Pair i turn_identity [OF i assms(2), of msg msgs a b d ui tr rnd st] by auto
  next
    case (Receive ev)
    then obtain r where r: "onmessage ev m = Some r" and y: "y = (snd r, st)"
      using assms(3) Pair by (cases "onmessage ev m") (auto split: prod.splits)
    then show ?thesis
      using onmessage_fields(2) [OF r] i by simp
  next
    case CloseCall
    then show ?thesis
      using assms(3) Pair i by (auto simp: close_fields)
  qed
qed

lemma perform_all_identity:
  assumes "conversationId (fst x) = Some c" "c \<noteq> []" "perform_all ps x = Some y"
  shows "conversationId (fst y) = Some c"
  using assms
proof (induction ps arbitrary: x)
  case Nil
  then show ?case by simp
next
  case (Cons p ps)
  then obtain z where z: "perform p x = Some z" and rest: "perform_all ps z = Some y"
    by (cases "perform p x") auto
  have "conversationId (fst z) = Some c"
    using perform_identity [OF Cons.prems(1) Cons.prems(2) z] .
  then show ?case
    using Cons.IH [of z] Cons.prems(2) rest by simp
qed

lemma perform_total:
  assumes "\<forall>ev. p = Receive ev \<longrightarrow> \<not> engine_dependent ev"
  shows "perform p x \<noteq> None"
proof (cases x)
  case (Pair m st)
  show ?thesis
  proof (cases p)
    case (Receive ev)
    then have "onmessage ev m \<noteq> None"
      using assms onmessage_None [of ev m] by simp
    then show ?thesis
      using Receive Pair by (auto split: option.splits)
  qed (simp_all add: Pair)
qed

lemma perform_all_total:
  assumes "\<forall>ev. Receive ev \<in> set ps \<longrightarrow> \<not> engine_dependent ev"
  shows "perform_all ps x \<noteq> None"
  using assms
proof (induction ps arbitrary: x)
  case Nil
  then show ?case by simp
next
  case (Cons p ps)
  have "perform p x \<noteq> None"
    using perform_total [of p x] Cons.prems by simp
  then obtain z where z: "perform p x = Some z" by blast
  have "perform_all ps z \<noteq> None"
    using Cons.IH [of z] Cons.prems by simp
  then show ?case using z by simp
qed

text \<open>
  C9, as stated, fails: when \<^verbatim>\<open>localStorage.removeItem\<close> throws, \<^verbatim>\<open>clearConversation\<close>
  resets the identity in memory and leaves the stored copy, and the next
  \<^verbatim>\<open>getConversationId\<close> recovers the identity that was cleared.
\<close>

theorem clearConversation_keeps_stored_copy:
  "clearConversation (new_manager\<lparr>conversationId := Some ''conv_a''\<rparr>)
       \<lparr>item = Some ''conv_a'', getItemThrows = False, setItemThrows = False, removeItemThrows = True\<rparr>
     = (new_manager,
        \<lparr>item = Some ''conv_a'', getItemThrows = False, setItemThrows = False, removeItemThrows = True\<rparr>)
   \<and> fst (getConversationId (\<lambda>i. i) new_manager
        \<lparr>item = Some ''conv_a'', getItemThrows = False, setItemThrows = False, removeItemThrows = True\<rparr>)
     = Some ''conv_a''"
  by (simp add: clearConversation_def getConversationId_def truthy_string_def new_manager_def)

text \<open>
  C9, amended. An identity is set (in the manager, in the store) when the field holds a
  non-empty string: \<^verbatim>\<open>!this.conversationId\<close> and \<^verbatim>\<open>if (stored)\<close> are truthiness tests.
  \<^verbatim>\<open>getConversationId\<close> returns the identity that is set, changing nothing. When none is
  set it returns the one the store holds, if the store can be read and holds one; in
  every other case (nothing stored, or the read throws) it generates a fresh identity,
  keeps it in memory, stores it unless the write throws, and returns it. The fresh
  identity is \<^verbatim>\<open>conv_\<close> followed by the UUID template filled with 31 random hexadecimal
  digits, the sixteenth of them one of 8, 9, a, b. After any call the identity is a
  non-empty string, and it stays the same over every sequence of later calls other than
  \<^verbatim>\<open>clearConversation\<close>, \<^verbatim>\<open>setConversationId\<close> and \<^verbatim>\<open>startNewConversation\<close>: a
  \<^verbatim>\<open>getConversationId\<close> after such a sequence (whatever the random draws) returns the
  same value and changes nothing. \<^verbatim>\<open>clearConversation\<close> sets the identity to
  \<^verbatim>\<open>null\<close>; it removes the stored copy unless the removal throws, and then the next
  \<^verbatim>\<open>getConversationId\<close> generates a fresh identity; when the removal throws the stored
  copy stays, and the next \<^verbatim>\<open>getConversationId\<close> recovers it if the store can be read.
\<close>

theorem conversation_identity:
  "(truthy_string (conversationId m) \<longrightarrow> getConversationId rnd m st = (conversationId m, m, st))
   \<and> (\<not> truthy_string (conversationId m) \<and> \<not> getItemThrows st \<and> truthy_string (item st) \<longrightarrow>
        getConversationId rnd m st = (item st, m\<lparr>conversationId := item st\<rparr>, st))
   \<and> (\<not> truthy_string (conversationId m) \<and> (getItemThrows st \<or> \<not> truthy_string (item st)) \<longrightarrow>
        getConversationId rnd m st =
          (Some (generateConversationId rnd),
           m\<lparr>conversationId := Some (generateConversationId rnd)\<rparr>,
           if setItemThrows st then st else st\<lparr>item := Some (generateConversationId rnd)\<rparr>))
   \<and> generateConversationId rnd =
        ''conv_''
        @ [hex_digit (rnd 0 mod 16), hex_digit (rnd 1 mod 16), hex_digit (rnd 2 mod 16),
           hex_digit (rnd 3 mod 16), hex_digit (rnd 4 mod 16), hex_digit (rnd 5 mod 16),
           hex_digit (rnd 6 mod 16), hex_digit (rnd 7 mod 16)]
        @ ''-''
        @ [hex_digit (rnd 8 mod 16), hex_digit (rnd 9 mod 16), hex_digit (rnd 10 mod 16),
           hex_digit (rnd 11 mod 16)]
        @ ''-4''
        @ [hex_digit (rnd 12 mod 16), hex_digit (rnd 13 mod 16), hex_digit (rnd 14 mod 16)]
        @ ''-''
        @ [hex_digit (rnd 15 mod 16 mod 4 + 8), hex_digit (rnd 16 mod 16), hex_digit (rnd 17 mod 16),
           hex_digit (rnd 18 mod 16)]
        @ ''-''
        @ [hex_digit (rnd 19 mod 16), hex_digit (rnd 20 mod 16), hex_digit (rnd 21 mod 16),
           hex_digit (rnd 22 mod 16), hex_digit (rnd 23 mod 16), hex_digit (rnd 24 mod 16),
           hex_digit (rnd 25 mod 16), hex_digit (rnd 26 mod 16), hex_digit (rnd 27 mod 16),
           hex_digit (rnd 28 mod 16), hex_digit (rnd 29 mod 16), hex_digit (rnd 30 mod 16)]
   \<and> (\<exists>c. c \<noteq> []
         \<and> fst (getConversationId rnd m st) = Some c
         \<and> conversationId (fst (snd (getConversationId rnd m st))) = Some c
         \<and> (\<forall>m2 st2. perform_all ps (snd (getConversationId rnd m st)) = Some (m2, st2) \<longrightarrow>
               conversationId m2 = Some c
               \<and> getConversationId rnd' m2 st2 = (Some c, m2, st2))
         \<and> ((\<forall>ev. Receive ev \<in> set ps \<longrightarrow> \<not> engine_dependent ev) \<longrightarrow>
               perform_all ps (snd (getConversationId rnd m st)) \<noteq> None))
   \<and> conversationId (fst (clearConversation m st)) = None
   \<and> item (snd (clearConversation m st)) = (if removeItemThrows st then item st else None)
   \<and> (removeItemThrows st \<and> \<not> getItemThrows st \<and> truthy_string (item st) \<longrightarrow>
        fst (getConversationId rnd (fst (clearConversation m st)) (snd (clearConversation m st)))
          = item st)
   \<and> (\<not> removeItemThrows st \<longrightarrow>
        fst (getConversationId rnd (fst (clearConversation m st)) (snd (clearConversation m st)))
          = Some (generateConversationId rnd))"
proof -
  have p1: "truthy_string (conversationId m) \<longrightarrow> getConversationId rnd m st = (conversationId m, m, st)"
    by (simp add: getConversationId_def)
  have p2: "\<not> truthy_string (conversationId m) \<and> \<not> getItemThrows st \<and> truthy_string (item st) \<longrightarrow>
        getConversationId rnd m st = (item st, m\<lparr>conversationId := item st\<rparr>, st)"
    by (simp add: getConversationId_def Let_def)
  have p3: "\<not> truthy_string (conversationId m) \<and> (getItemThrows st \<or> \<not> truthy_string (item st)) \<longrightarrow>
        getConversationId rnd m st =
          (Some (generateConversationId rnd),
           m\<lparr>conversationId := Some (generateConversationId rnd)\<rparr>,
           if setItemThrows st then st else st\<lparr>item := Some (generateConversationId rnd)\<rparr>)"
    using getConversationId_fresh [of m st rnd] by blast
  note pg = generateConversationId_closed [of rnd]
  obtain c where c: "c \<noteq> []" "fst (getConversationId rnd m st) = Some c"
      "conversationId (fst (snd (getConversationId rnd m st))) = Some c"
    using getConversationId_result [of rnd m st] by blast
  have later: "conversationId m2 = Some c \<and> getConversationId rnd' m2 st2 = (Some c, m2, st2)"
    if "perform_all ps (snd (getConversationId rnd m st)) = Some (m2, st2)" for m2 st2
  proof -
    have "conversationId (fst (m2, st2)) = Some c"
      using perform_all_identity [OF c(3) c(1) that] .
    then show ?thesis
      using getConversationId_set [of m2 c rnd' st2] c(1) by simp
  qed
  have total: "(\<forall>ev. Receive ev \<in> set ps \<longrightarrow> \<not> engine_dependent ev) \<longrightarrow>
               perform_all ps (snd (getConversationId rnd m st)) \<noteq> None"
    using perform_all_total by blast
  have p4: "\<exists>c. c \<noteq> []
         \<and> fst (getConversationId rnd m st) = Some c
         \<and> conversationId (fst (snd (getConversationId rnd m st))) = Some c
         \<and> (\<forall>m2 st2. perform_all ps (snd (getConversationId rnd m st)) = Some (m2, st2) \<longrightarrow>
               conversationId m2 = Some c
               \<and> getConversationId rnd' m2 st2 = (Some c, m2, st2))
         \<and> ((\<forall>ev. Receive ev \<in> set ps \<longrightarrow> \<not> engine_dependent ev) \<longrightarrow>
               perform_all ps (snd (getConversationId rnd m st)) \<noteq> None)"
    using c later total by blast
  have p5: "conversationId (fst (clearConversation m st)) = None"
    by (simp add: clearConversation_def)
  have p6: "item (snd (clearConversation m st)) = (if removeItemThrows st then item st else None)"
    by (simp add: clearConversation_def)
  have p7: "removeItemThrows st \<and> \<not> getItemThrows st \<and> truthy_string (item st) \<longrightarrow>
        fst (getConversationId rnd (fst (clearConversation m st)) (snd (clearConversation m st)))
          = item st"
    by (simp add: clearConversation_def getConversationId_def truthy_string_def Let_def)
  have p8: "\<not> removeItemThrows st \<longrightarrow>
        fst (getConversationId rnd (fst (clearConversation m st)) (snd (clearConversation m st)))
          = Some (generateConversationId rnd)"
    by (simp add: clearConversation_def getConversationId_def startNewConversation_def
          truthy_string_def Let_def)
  show ?thesis
    using p1 p2 p3 pg p4 p5 p6 p7 p8 by blast
qed

theorem conversation_identity_witness:
  "truthy_string (conversationId (new_manager\<lparr>conversationId := Some ''conv_a''\<rparr>))
   \<and> getConversationId (\<lambda>i. i) (new_manager\<lparr>conversationId := Some ''conv_a''\<rparr>)
        \<lparr>item = Some ''conv_b'', getItemThrows = False, setItemThrows = False, removeItemThrows = False\<rparr>
      = (Some ''conv_a'', new_manager\<lparr>conversationId := Some ''conv_a''\<rparr>,
         \<lparr>item = Some ''conv_b'', getItemThrows = False, setItemThrows = False, removeItemThrows = False\<rparr>)
   \<and> \<not> truthy_string (conversationId new_manager)
   \<and> getConversationId (\<lambda>i. i) new_manager
        \<lparr>item = Some ''conv_b'', getItemThrows = False, setItemThrows = False, removeItemThrows = False\<rparr>
      = (Some ''conv_b'', new_manager\<lparr>conversationId := Some ''conv_b''\<rparr>,
         \<lparr>item = Some ''conv_b'', getItemThrows = False, setItemThrows = False, removeItemThrows = False\<rparr>)
   \<and> generateConversationId (\<lambda>i. i) = ''conv_01234567-89ab-4cde-b012-3456789abcde''
   \<and> getConversationId (\<lambda>i. i) new_manager
        \<lparr>item = Some ''conv_b'', getItemThrows = True, setItemThrows = True, removeItemThrows = False\<rparr>
      = (Some ''conv_01234567-89ab-4cde-b012-3456789abcde'',
         new_manager\<lparr>conversationId := Some ''conv_01234567-89ab-4cde-b012-3456789abcde''\<rparr>,
         \<lparr>item = Some ''conv_b'', getItemThrows = True, setItemThrows = True, removeItemThrows = False\<rparr>)
   \<and> \<not> engine_dependent (receive (ContentDelta ''a''))
   \<and> \<not> engine_dependent (receive MessageStop)
   \<and> (\<exists>m2 st2.
         perform_all
           [Turn ''Hi'' (JArr []) True True True JNull
              (Opens \<lparr>closeCalled = False, outbox = [], sendThrows = False\<rparr>) (\<lambda>i. 0),
            Receive (receive (ContentDelta ''a'')), Receive (receive MessageStop), CloseCall,
            GetId (\<lambda>i. 0), Send ''again'' (JArr []) JNull (\<lambda>i. 0)]
           (snd (getConversationId (\<lambda>i. i) new_manager
              \<lparr>item = Some ''conv_b'', getItemThrows = True, setItemThrows = True,
                removeItemThrows = False\<rparr>))
           = Some (m2, st2)
         \<and> conversationId m2 = Some ''conv_01234567-89ab-4cde-b012-3456789abcde''
         \<and> getConversationId (\<lambda>i. 0) m2 st2
             = (Some ''conv_01234567-89ab-4cde-b012-3456789abcde'', m2, st2))
   \<and> fst (getConversationId (\<lambda>i. i)
        (fst (clearConversation (new_manager\<lparr>conversationId := Some ''conv_a''\<rparr>)
           \<lparr>item = Some ''conv_a'', getItemThrows = False, setItemThrows = False,
             removeItemThrows = True\<rparr>))
        (snd (clearConversation (new_manager\<lparr>conversationId := Some ''conv_a''\<rparr>)
           \<lparr>item = Some ''conv_a'', getItemThrows = False, setItemThrows = False,
             removeItemThrows = True\<rparr>)))
      = Some ''conv_a''
   \<and> item (snd (clearConversation (new_manager\<lparr>conversationId := Some ''conv_a''\<rparr>)
        \<lparr>item = Some ''conv_b'', getItemThrows = False, setItemThrows = False, removeItemThrows = False\<rparr>))
      = None
   \<and> fst (getConversationId (\<lambda>i. i)
        (fst (clearConversation (new_manager\<lparr>conversationId := Some ''conv_a''\<rparr>)
           \<lparr>item = Some ''conv_b'', getItemThrows = False, setItemThrows = False,
             removeItemThrows = False\<rparr>))
        (snd (clearConversation (new_manager\<lparr>conversationId := Some ''conv_a''\<rparr>)
           \<lparr>item = Some ''conv_b'', getItemThrows = False, setItemThrows = False,
             removeItemThrows = False\<rparr>)))
      = Some ''conv_01234567-89ab-4cde-b012-3456789abcde''"
proof -
  let ?a = "new_manager\<lparr>conversationId := Some ''conv_a''\<rparr>"
  let ?ok = "\<lparr>item = Some ''conv_b'', getItemThrows = False, setItemThrows = False, removeItemThrows = False\<rparr>"
  let ?bad = "\<lparr>item = Some ''conv_b'', getItemThrows = True, setItemThrows = True, removeItemThrows = False\<rparr>"
  let ?stuck = "\<lparr>item = Some ''conv_a'', getItemThrows = False, setItemThrows = False, removeItemThrows = True\<rparr>"
  let ?id = "''conv_01234567-89ab-4cde-b012-3456789abcde''"
  let ?ps = "[Turn ''Hi'' (JArr []) True True True JNull
              (Opens \<lparr>closeCalled = False, outbox = [], sendThrows = False\<rparr>) (\<lambda>i. 0),
            Receive (receive (ContentDelta ''a'')), Receive (receive MessageStop), CloseCall,
            GetId (\<lambda>i. 0), Send ''again'' (JArr []) JNull (\<lambda>i. 0)]"
  note ta = conversation_identity [of ?a "\<lambda>i. i" ?ok "[]" "\<lambda>i. 0"]
  note tb = conversation_identity [of new_manager "\<lambda>i. i" ?ok "[]" "\<lambda>i. 0"]
  note tc = conversation_identity [of new_manager "\<lambda>i. i" ?bad ?ps "\<lambda>i. 0"]
  note td = conversation_identity [of ?a "\<lambda>i. i" ?stuck "[]" "\<lambda>i. 0"]
  have h1: "truthy_string (conversationId ?a)"
    by (simp add: truthy_string_def)
  have h2: "\<not> truthy_string (conversationId new_manager)"
    by (simp add: truthy_string_def new_manager_def)
  have h3: "\<not> getItemThrows ?ok \<and> truthy_string (item ?ok)"
    by (simp add: truthy_string_def)
  have h4: "getItemThrows ?bad" "setItemThrows ?bad"
    by simp_all
  have h5: "\<not> removeItemThrows ?ok"
    by simp
  have h6: "removeItemThrows ?stuck \<and> \<not> getItemThrows ?stuck \<and> truthy_string (item ?stuck)"
    by (simp add: truthy_string_def)
  have e1: "\<not> engine_dependent (receive (ContentDelta ''a''))"
    and e2: "\<not> engine_dependent (receive MessageStop)"
    by (simp_all add: engine_dependent_def receive_def get_of_def)
  have h7: "\<forall>ev. Receive ev \<in> set ?ps \<longrightarrow> \<not> engine_dependent ev"
    using e1 e2 by auto
  have w1: "getConversationId (\<lambda>i. i) ?a ?ok = (Some ''conv_a'', ?a, ?ok)"
    using ta h1 by simp
  have w2: "getConversationId (\<lambda>i. i) new_manager ?ok
              = (Some ''conv_b'', new_manager\<lparr>conversationId := Some ''conv_b''\<rparr>, ?ok)"
    using tb h2 h3 by simp
  have g: "generateConversationId (\<lambda>i. i) = ?id"
    using tb by (simp add: hex_digit_def)
  have w3: "getConversationId (\<lambda>i. i) new_manager ?bad
              = (Some ?id, new_manager\<lparr>conversationId := Some ?id\<rparr>, ?bad)"
  proof -
    have "getConversationId (\<lambda>i. i) new_manager ?bad =
          (Some (generateConversationId (\<lambda>i. i)),
           new_manager\<lparr>conversationId := Some (generateConversationId (\<lambda>i. i))\<rparr>,
           if setItemThrows ?bad then ?bad
           else ?bad\<lparr>item := Some (generateConversationId (\<lambda>i. i))\<rparr>)"
      using tc h2 h4 by blast
    then show ?thesis
      by (simp add: g)
  qed
  obtain c where c: "fst (getConversationId (\<lambda>i. i) new_manager ?bad) = Some c"
    and later: "\<And>m2 st2. perform_all ?ps (snd (getConversationId (\<lambda>i. i) new_manager ?bad)) = Some (m2, st2)
                  \<Longrightarrow> conversationId m2 = Some c
                      \<and> getConversationId (\<lambda>i. 0) m2 st2 = (Some c, m2, st2)"
    and total: "perform_all ?ps (snd (getConversationId (\<lambda>i. i) new_manager ?bad)) \<noteq> None"
    using tc h7 by blast
  have cid: "c = ?id"
    using c w3 by simp
  obtain m2 st2 where
    p: "perform_all ?ps (snd (getConversationId (\<lambda>i. i) new_manager ?bad)) = Some (m2, st2)"
    using total by (cases "perform_all ?ps (snd (getConversationId (\<lambda>i. i) new_manager ?bad))") auto
  have w4: "\<exists>m2 st2.
         perform_all ?ps (snd (getConversationId (\<lambda>i. i) new_manager ?bad)) = Some (m2, st2)
         \<and> conversationId m2 = Some ?id
         \<and> getConversationId (\<lambda>i. 0) m2 st2 = (Some ?id, m2, st2)"
    using p later [OF p] cid by blast
  have w5: "fst (getConversationId (\<lambda>i. i) (fst (clearConversation ?a ?stuck))
                  (snd (clearConversation ?a ?stuck))) = Some ''conv_a''"
  proof -
    have "fst (getConversationId (\<lambda>i. i) (fst (clearConversation ?a ?stuck))
                  (snd (clearConversation ?a ?stuck))) = item ?stuck"
      using td h6 by blast
    then show ?thesis by simp
  qed
  have w6: "item (snd (clearConversation ?a ?ok)) = None"
  proof -
    have "item (snd (clearConversation ?a ?ok)) = (if removeItemThrows ?ok then item ?ok else None)"
      using ta by blast
    then show ?thesis by simp
  qed
  have w7: "fst (getConversationId (\<lambda>i. i) (fst (clearConversation ?a ?ok))
                  (snd (clearConversation ?a ?ok))) = Some ?id"
  proof -
    have "fst (getConversationId (\<lambda>i. i) (fst (clearConversation ?a ?ok))
                  (snd (clearConversation ?a ?ok))) = Some (generateConversationId (\<lambda>i. i))"
      using ta h5 by blast
    then show ?thesis by (simp add: g)
  qed
  show ?thesis
    using h1 h2 w1 w2 g w3 e1 e2 w4 w5 w6 w7 by blast
qed

end
